theory Spec2Isabelle
  imports Complex_Main "HOL-Library.AList"
begin

section \<open>Values and errors shared by the executor and the session store\<close>

text \<open>
  The exceptions of \<^verbatim>\<open>core/executor.py\<close>. \<^verbatim>\<open>ExecutorError\<close> carries its message,
  \<^verbatim>\<open>OperationTimeoutError\<close> its message and \<^verbatim>\<open>terminated_subprocesses\<close>.
  \<^verbatim>\<open>ValueError\<close> and \<^verbatim>\<open>OverflowError\<close> are the built-in exceptions that
  \<^verbatim>\<open>round\<close> and the conversion of an integer to a float raise. Any other exception,
  raised by a collaborator (adapter, registry, adb), is \<open>CollaboratorError\<close> with the
  text of \<^verbatim>\<open>str(e)\<close> and whether it is an instance of the built-in \<^verbatim>\<open>TimeoutError\<close>.
  All of them are instances of \<^verbatim>\<open>Exception\<close>; \<^verbatim>\<open>KeyboardInterrupt\<close> and
  \<^verbatim>\<open>SystemExit\<close>, which \<^verbatim>\<open>except Exception\<close> lets through, are not modelled.
\<close>

datatype py_error =
    ExecutorError string
  | OperationTimeoutError string nat
  | ValueError string
  | OverflowError string
  | CollaboratorError string bool

fun error_text :: "py_error \<Rightarrow> string" where
  "error_text (ExecutorError m) = m"
| "error_text (OperationTimeoutError m n) = m"
| "error_text (ValueError m) = m"
| "error_text (OverflowError m) = m"
| "error_text (CollaboratorError m b) = m"

text \<open>\<^verbatim>\<open>isinstance(e, TimeoutError)\<close>; \<^verbatim>\<open>OperationTimeoutError\<close> derives from it.\<close>

fun is_timeout_error :: "py_error \<Rightarrow> bool" where
  "is_timeout_error (OperationTimeoutError m n) = True"
| "is_timeout_error (CollaboratorError m b) = b"
| "is_timeout_error e = False"

text \<open>\<^verbatim>\<open>isinstance(e, OperationTimeoutError)\<close>, with the count it carries.\<close>

fun terminated_of :: "py_error \<Rightarrow> nat option" where
  "terminated_of (OperationTimeoutError m n) = Some n"
| "terminated_of e = None"

section \<open>Coordinate resolver\<close>

text \<open>
  Coordinates are Python floats: a finite float is a rational number, and beside the
  finite ones there are the two infinities and NaN (the command line reads \<^verbatim>\<open>--x\<close> and
  \<^verbatim>\<open>--y\<close> with \<^verbatim>\<open>float\<close>, which accepts \<^verbatim>\<open>inf\<close> and \<^verbatim>\<open>nan\<close>).
\<close>

datatype pyfloat = Finite rat | PosInf | NegInf | NaN

text \<open>\<^verbatim>\<open>0.0 <= v <= 1.0\<close>: false for NaN and for the infinities.\<close>

fun in_unit_range :: "pyfloat \<Rightarrow> bool" where
  "in_unit_range (Finite r) = (0 \<le> r \<and> r \<le> 1)"
| "in_unit_range v = False"

text \<open>
  The one inexact operation of \<^verbatim>\<open>_resolve_tap_coordinate\<close> is the product
  \<^verbatim>\<open>x * (screen_width - 1)\<close> of a float and an integer: the machine converts the integer
  to a float (\<^verbatim>\<open>OverflowError\<close> when it is too large), multiplies and rounds, and the
  result may be an infinity or NaN. The resolver takes this product as its first
  argument \<open>mul\<close>, so what is proved for every \<open>mul\<close> holds whatever the rounding.
  \<open>exact_product\<close> is the product with no rounding error and no overflow.
\<close>

fun exact_product :: "pyfloat \<Rightarrow> int \<Rightarrow> py_error + pyfloat" where
  "exact_product (Finite r) n = Inr (Finite (r * of_int n))"
| "exact_product PosInf n = Inr (if n = 0 then NaN else if 0 < n then PosInf else NegInf)"
| "exact_product NegInf n = Inr (if n = 0 then NaN else if 0 < n then NegInf else PosInf)"
| "exact_product NaN n = Inr NaN"

text \<open>
  Python's \<^verbatim>\<open>round\<close> on one argument, for a finite float: a nearest integer, a tie
  going to the even neighbour.
\<close>

definition py_round :: "rat \<Rightarrow> int" where
  "py_round r =
     (let f = \<lfloor>r\<rfloor>; d = r - of_int f
      in if d < 1 / 2 then f
         else if 1 / 2 < d then f + 1
         else if even f then f else f + 1)"

text \<open>
  \<^verbatim>\<open>int(round(raw))\<close>: \<^verbatim>\<open>round\<close> raises \<^verbatim>\<open>ValueError\<close> on NaN and \<^verbatim>\<open>OverflowError\<close>
  on an infinity.
\<close>

fun int_round :: "pyfloat \<Rightarrow> py_error + int" where
  "int_round (Finite r) = Inr (py_round r)"
| "int_round NaN = Inl (ValueError ''cannot convert float NaN to integer'')"
| "int_round v = Inl (OverflowError ''cannot convert float infinity to integer'')"

record coord_detail =
  input_x :: pyfloat
  input_y :: pyfloat
  input_coord_space :: string
  effective_coord_space :: string
  screen_size_width :: int
  screen_size_height :: int
  computed_x :: int
  computed_y :: int
  tap_x :: int
  tap_y :: int
  clamped :: bool

text \<open>
  \<^verbatim>\<open>_resolve_tap_coordinate\<close> from the two rounded values on: clamp, and build the
  result dictionary.
\<close>

definition tap_detail ::
  "pyfloat \<Rightarrow> pyfloat \<Rightarrow> string \<Rightarrow> string \<Rightarrow> int \<Rightarrow> int \<Rightarrow> int \<Rightarrow> int \<Rightarrow> coord_detail" where
  "tap_detail x y coord_space effective_space screen_width screen_height rounded_x rounded_y =
     (let tx = max 0 (min (screen_width - 1) rounded_x);
          ty = max 0 (min (screen_height - 1) rounded_y)
      in \<lparr> input_x = x, input_y = y, input_coord_space = coord_space,
           effective_coord_space = effective_space,
           screen_size_width = screen_width, screen_size_height = screen_height,
           computed_x = rounded_x, computed_y = rounded_y,
           tap_x = tx, tap_y = ty,
           clamped = (tx \<noteq> rounded_x \<or> ty \<noteq> rounded_y) \<rparr>)"

text \<open>
  \<^verbatim>\<open>_resolve_tap_coordinate\<close> from the two raw values on: round the first, then the
  second (either may raise), then clamp.
\<close>

definition round_and_clamp ::
  "pyfloat \<Rightarrow> pyfloat \<Rightarrow> string \<Rightarrow> string \<Rightarrow> int \<Rightarrow> int \<Rightarrow> pyfloat \<Rightarrow> pyfloat
     \<Rightarrow> py_error + coord_detail" where
  "round_and_clamp x y coord_space effective_space screen_width screen_height raw_x raw_y =
     (case int_round raw_x of
        Inl e \<Rightarrow> Inl e
      | Inr rounded_x \<Rightarrow>
          (case int_round raw_y of
             Inl e \<Rightarrow> Inl e
           | Inr rounded_y \<Rightarrow>
               Inr (tap_detail x y coord_space effective_space screen_width screen_height
                      rounded_x rounded_y)))"

definition resolve_tap_coordinate ::
  "(pyfloat \<Rightarrow> int \<Rightarrow> py_error + pyfloat) \<Rightarrow> pyfloat \<Rightarrow> pyfloat \<Rightarrow> string \<Rightarrow> int \<Rightarrow> int
     \<Rightarrow> py_error + coord_detail" where
  "resolve_tap_coordinate mul x y coord_space screen_width screen_height =
     (if screen_width \<le> 0 \<or> screen_height \<le> 0
      then Inl (ExecutorError ''Invalid screen size. Width/height must be > 0.'')
      else
        let effective_space =
              (if coord_space = ''auto''
               then (if in_unit_range x \<and> in_unit_range y then ''ratio'' else ''pixel'')
               else coord_space)
        in if effective_space = ''ratio''
           then (case mul x (screen_width - 1) of
                   Inl e \<Rightarrow> Inl e
                 | Inr raw_x \<Rightarrow>
                     (case mul y (screen_height - 1) of
                        Inl e \<Rightarrow> Inl e
                      | Inr raw_y \<Rightarrow>
                          round_and_clamp x y coord_space effective_space
                            screen_width screen_height raw_x raw_y))
           else if effective_space = ''pixel''
           then round_and_clamp x y coord_space effective_space screen_width screen_height x y
           else Inl (ExecutorError (''Unsupported coord_space: '' @ coord_space)))"

subsection \<open>The resolver as the specification words it\<close>

text \<open>
  A second definition, following the specification's sentences rather than the code:
  the validity check, the choice of the space, the mapping of one coordinate, "round to
  nearest integer", "clamp into \<open>[0, dimension - 1]\<close>" and "report whether clamping
  altered the value". The specification speaks of numbers, so the coordinates are
  rationals here and \<open>fmul\<close> is the product of a coordinate and a dimension. It is
  compared with \<open>resolve_tap_coordinate\<close> below.
\<close>

definition nearest_integer :: "rat \<Rightarrow> int \<Rightarrow> bool" where
  "nearest_integer r n \<longleftrightarrow> \<bar>r - of_int n\<bar> \<le> 1 / 2"

definition spec_space :: "rat \<Rightarrow> rat \<Rightarrow> string \<Rightarrow> string" where
  "spec_space x y space =
     (if space = ''auto''
      then (if x \<in> {0..1} \<and> y \<in> {0..1} then ''ratio'' else ''pixel'')
      else space)"

definition spec_raw :: "(rat \<Rightarrow> int \<Rightarrow> rat) \<Rightarrow> string \<Rightarrow> rat \<Rightarrow> int \<Rightarrow> rat" where
  "spec_raw fmul space coordinate dimension =
     (if space = ''ratio'' then fmul coordinate (dimension - 1) else coordinate)"

definition spec_clamp :: "int \<Rightarrow> int \<Rightarrow> int" where
  "spec_clamp dimension v =
     (if v < 0 then 0 else if dimension - 1 < v then dimension - 1 else v)"

definition spec_resolve ::
  "(rat \<Rightarrow> int \<Rightarrow> rat) \<Rightarrow> rat \<Rightarrow> rat \<Rightarrow> string \<Rightarrow> int \<Rightarrow> int \<Rightarrow> py_error + coord_detail" where
  "spec_resolve fmul x y space width height =
     (if width \<le> 0 \<or> height \<le> 0
      then Inl (ExecutorError ''Invalid screen size. Width/height must be > 0.'')
      else if spec_space x y space \<notin> {''ratio'', ''pixel''}
      then Inl (ExecutorError (''Unsupported coord_space: '' @ space))
      else
        let s = spec_space x y space;
            cx = py_round (spec_raw fmul s x width);
            cy = py_round (spec_raw fmul s y height)
        in Inr \<lparr> input_x = Finite x, input_y = Finite y, input_coord_space = space,
                 effective_coord_space = s,
                 screen_size_width = width, screen_size_height = height,
                 computed_x = cx, computed_y = cy,
                 tap_x = spec_clamp width cx, tap_y = spec_clamp height cy,
                 clamped = (spec_clamp width cx \<noteq> cx \<or> spec_clamp height cy \<noteq> cy) \<rparr>)"

section \<open>Adapter payloads and the next action\<close>

text \<open>
  The JSON-compatible values an adapter returns. A dictionary is an association list
  read with \<^const>\<open>map_of\<close>.
\<close>

datatype pyval =
    PNone
  | PBool bool
  | PInt int
  | PFloat rat
  | PStr string
  | PList "pyval list"
  | PDict "(string \<times> pyval) list"

text \<open>Python truthiness, as \<^verbatim>\<open>or\<close> and \<^verbatim>\<open>if\<close> test it.\<close>

fun truthy :: "pyval \<Rightarrow> bool" where
  "truthy PNone = False"
| "truthy (PBool b) = b"
| "truthy (PInt n) = (n \<noteq> 0)"
| "truthy (PFloat r) = (r \<noteq> 0)"
| "truthy (PStr s) = (s \<noteq> [])"
| "truthy (PList xs) = (xs \<noteq> [])"
| "truthy (PDict kvs) = (kvs \<noteq> [])"

text \<open>\<^verbatim>\<open>a or b\<close>\<close>

definition py_or :: "pyval \<Rightarrow> pyval \<Rightarrow> pyval" where
  "py_or a b = (if truthy a then a else b)"

text \<open>\<^verbatim>\<open>d.get(key)\<close>\<close>

definition dict_get :: "(string \<times> pyval) list \<Rightarrow> string \<Rightarrow> pyval" where
  "dict_get d key = (case map_of d key of None \<Rightarrow> PNone | Some v \<Rightarrow> v)"

text \<open>
  The two fields \<^verbatim>\<open>_determine_next_action\<close> reads: the action type
  (\<^verbatim>\<open>result.get("action_type") or result.get("type")\<close>) and the status
  (\<^verbatim>\<open>result.get("status") or result.get("state")\<close>).
\<close>

definition action_type_of :: "(string \<times> pyval) list \<Rightarrow> pyval" where
  "action_type_of d = py_or (dict_get d ''action_type'') (dict_get d ''type'')"

definition status_of :: "(string \<times> pyval) list \<Rightarrow> pyval" where
  "status_of d = py_or (dict_get d ''status'') (dict_get d ''state'')"

fun determine_next_action :: "pyval \<Rightarrow> string" where
  "determine_next_action (PDict d) =
     (if action_type_of d = PStr ''INFO_ACTION_NEEDS_REPLY'' then ''needs_reply''
      else if status_of d \<in> set [PStr ''completed'', PStr ''done'', PStr ''success'']
      then ''complete''
      else ''continue'')"
| "determine_next_action v = ''continue''"

section \<open>Device selector\<close>

definition NO_DEVICE_HINT :: string where
  "NO_DEVICE_HINT =
     ''No ADB devices found. Connect a phone/emulator, enable USB debugging, '' @
     ''and approve the device authorization prompt. You can run `adb devices` to verify.''"

text \<open>\<^verbatim>\<open>', '.join(devices)\<close>\<close>

fun join_comma :: "string list \<Rightarrow> string" where
  "join_comma [] = []"
| "join_comma [d] = d"
| "join_comma (d # e # ds) = d @ '', '' @ join_comma (e # ds)"

definition not_connected_message :: "string \<Rightarrow> string list \<Rightarrow> string" where
  "not_connected_message dev devices =
     ''Device `'' @ dev @ ''` is not connected or not authorized. Available devices: '' @
     join_comma devices @ ''. '' @
     ''Ensure USB debugging is enabled and debugging authorization is approved on the device.''"

definition multiple_devices_message :: "string list \<Rightarrow> string" where
  "multiple_devices_message devices =
     ''Multiple devices found: '' @ join_comma devices @ ''. Use --device-id to choose one.''"

text \<open>
  \<^verbatim>\<open>self.list_devices()\<close> asks adb; its outcome, the list of connected devices or the
  exception it raised, is the argument \<open>listed\<close> of the two functions below. Each path
  through \<^verbatim>\<open>_select_device\<close> calls it once.
\<close>

definition ensure_device_connected ::
  "py_error + string list \<Rightarrow> string \<Rightarrow> py_error + unit" where
  "ensure_device_connected listed dev =
     (case listed of
        Inl e \<Rightarrow> Inl e
      | Inr devices \<Rightarrow>
          if devices = [] then Inl (ExecutorError NO_DEVICE_HINT)
          else if dev \<notin> set devices
          then Inl (ExecutorError (not_connected_message dev devices))
          else Inr ())"

text \<open>\<^verbatim>\<open>if device_id:\<close> on a \<^verbatim>\<open>str | None\<close>: \<^verbatim>\<open>None\<close> and the empty string are false.\<close>

fun given :: "string option \<Rightarrow> bool" where
  "given None = False"
| "given (Some s) = (s \<noteq> [])"

definition select_device ::
  "string option \<Rightarrow> string option \<Rightarrow> py_error + string list \<Rightarrow> py_error + string" where
  "select_device explicit_id default_device_id listed =
     (if given explicit_id
      then (case ensure_device_connected listed (the explicit_id) of
              Inl e \<Rightarrow> Inl e | Inr u \<Rightarrow> Inr (the explicit_id))
      else if given default_device_id
      then (case ensure_device_connected listed (the default_device_id) of
              Inl e \<Rightarrow> Inl e | Inr u \<Rightarrow> Inr (the default_device_id))
      else (case listed of
              Inl e \<Rightarrow> Inl e
            | Inr devices \<Rightarrow>
                if devices = [] then Inl (ExecutorError NO_DEVICE_HINT)
                else if 1 < length devices
                then Inl (ExecutorError (multiple_devices_message devices))
                else Inr (hd devices)))"

section \<open>Session store\<close>

text \<open>
  \<^verbatim>\<open>core/session_manager.py\<close>. Timestamps are the floats of \<^verbatim>\<open>time.time()\<close>, modelled
  as rationals; every function that reads the clock takes the reading as its argument
  \<open>now\<close>, and \<^verbatim>\<open>create_session\<close> takes the fresh identifier
  \<^verbatim>\<open>str(uuid.uuid4())[:8]\<close> as \<open>new_id\<close>.
\<close>

record history_entry =
  step :: int
  timestamp :: rat
  result :: pyval

record session =
  session_id :: string
  device_id :: string
  provider :: string
  task :: string
  created_at :: rat
  updated_at :: rat
  status :: string
  step_count :: int
  last_result :: pyval
  history :: "history_entry list"

text \<open>
  The manager: \<^verbatim>\<open>_sessions\<close> is a Python dictionary, which keeps insertion order and
  whose values are enumerated by \<^verbatim>\<open>list_active_sessions\<close>, so it is an association
  list updated with \<^const>\<open>AList.update\<close> (replace in place, else append).
  \<open>storage\<close> is the directory of \<^verbatim>\<open><session_id>.json\<close> files, one record per
  identifier; writing a file is taken to succeed.
\<close>

record session_manager =
  expire_seconds :: int
  sessions :: "(string \<times> session) list"
  storage :: "string \<rightharpoonup> session"

definition save_session :: "session_manager \<Rightarrow> session \<Rightarrow> session_manager" where
  "save_session m s = m\<lparr>storage := (storage m)(session_id s \<mapsto> s)\<rparr>"

definition create_session ::
  "session_manager \<Rightarrow> string \<Rightarrow> string \<Rightarrow> string \<Rightarrow> string \<Rightarrow> rat
     \<Rightarrow> session_manager \<times> session" where
  "create_session m dev prov tsk new_id now =
     (let s = \<lparr> session_id = new_id, device_id = dev, provider = prov, task = tsk,
                created_at = now, updated_at = now, status = ''active'', step_count = 0,
                last_result = PDict [], history = [] \<rparr>
      in (save_session (m\<lparr>sessions := AList.update new_id s (sessions m)\<rparr>) s, s))"

text \<open>\<^verbatim>\<open>time.time() - session.updated_at > self.expire_seconds\<close>\<close>

definition stale :: "session_manager \<Rightarrow> rat \<Rightarrow> session \<Rightarrow> bool" where
  "stale m now s \<longleftrightarrow> of_int (expire_seconds m) < now - updated_at s"

definition get_session ::
  "session_manager \<Rightarrow> string \<Rightarrow> rat \<Rightarrow> session_manager \<times> session option" where
  "get_session m sid now =
     (case map_of (sessions m) sid of
        None \<Rightarrow> (m, None)
      | Some s \<Rightarrow>
          if stale m now s
          then (let s' = s\<lparr>status := ''expired''\<rparr>
                in (save_session (m\<lparr>sessions := AList.update sid s' (sessions m)\<rparr>) s',
                    Some s'))
          else (m, Some s))"

definition update_session ::
  "session_manager \<Rightarrow> string \<Rightarrow> pyval \<Rightarrow> string option \<Rightarrow> rat
     \<Rightarrow> session_manager \<times> session option" where
  "update_session m sid payload new_status now =
     (case map_of (sessions m) sid of
        None \<Rightarrow> (m, None)
      | Some s \<Rightarrow>
          let s1 = s\<lparr> updated_at := now,
                      step_count := step_count s + 1,
                      last_result := payload,
                      history := history s @
                        [\<lparr> step = step_count s + 1, timestamp = now, result = payload \<rparr>] \<rparr>;
              s2 = (if given new_status then s1\<lparr>status := the new_status\<rparr> else s1)
          in (save_session (m\<lparr>sessions := AList.update sid s2 (sessions m)\<rparr>) s2, Some s2))"

definition complete_session ::
  "session_manager \<Rightarrow> string \<Rightarrow> rat \<Rightarrow> session_manager \<times> session option" where
  "complete_session m sid now = update_session m sid (PDict []) (Some ''completed'') now"

text \<open>
  The loop of \<^verbatim>\<open>list_active_sessions\<close> over \<^verbatim>\<open>self._sessions.values()\<close>: an active
  session that is stale is marked expired in place and saved, an active one that is not
  is collected. The result is the dictionary after the loop, the sessions saved, and the
  active ones, all in the dictionary's order.
\<close>

fun list_active_loop ::
  "session_manager \<Rightarrow> rat \<Rightarrow> (string \<times> session) list
     \<Rightarrow> (string \<times> session) list \<times> session list \<times> session list" where
  "list_active_loop m now [] = ([], [], [])"
| "list_active_loop m now ((k, s) # rest) =
     (case list_active_loop m now rest of
        (items, saved, active) \<Rightarrow>
          if status s = ''active''
          then (if stale m now s
                then ((k, s\<lparr>status := ''expired''\<rparr>) # items,
                      s\<lparr>status := ''expired''\<rparr> # saved, active)
                else ((k, s) # items, saved, s # active))
          else ((k, s) # items, saved, active))"

definition list_active_sessions ::
  "session_manager \<Rightarrow> rat \<Rightarrow> session_manager \<times> session list" where
  "list_active_sessions m now =
     (case list_active_loop m now (sessions m) of
        (items, saved, active) \<Rightarrow>
          (fold (\<lambda>s m'. save_session m' s) saved (m\<lparr>sessions := items\<rparr>), active))"

text \<open>\<^verbatim>\<open>max(active, key=lambda s: s.updated_at)\<close>: the first of the greatest.\<close>

fun max_updated :: "session \<Rightarrow> session list \<Rightarrow> session" where
  "max_updated best [] = best"
| "max_updated best (s # ss) =
     max_updated (if updated_at best < updated_at s then s else best) ss"

definition get_latest_session ::
  "session_manager \<Rightarrow> string option \<Rightarrow> rat \<Rightarrow> session_manager \<times> session option" where
  "get_latest_session m dev now =
     (case list_active_sessions m now of
        (m', active) \<Rightarrow>
          let chosen = (if given dev then filter (\<lambda>s. device_id s = the dev) active
                        else active)
          in (case chosen of
                [] \<Rightarrow> (m', None)
              | s # ss \<Rightarrow> (m', Some (max_updated s ss))))"

section \<open>Subprocess registry and timeout executor\<close>

text \<open>
  A tracked \<^verbatim>\<open>Popen\<close> handle. \<open>running\<close> is \<^verbatim>\<open>proc.poll() is None\<close>; how the
  process answers the two signals is its own business, recorded in two flags:
  whether it exits within the grace period after the graceful signal, and whether it
  exits after the forced one.
\<close>

record tracked_process =
  pid :: nat
  running :: bool
  exits_on_terminate :: bool
  exits_on_kill :: bool

definition collect_live_subprocesses :: "tracked_process list \<Rightarrow> tracked_process list" where
  "collect_live_subprocesses reg = filter running reg"

definition terminate_process :: "bool \<Rightarrow> tracked_process \<Rightarrow> tracked_process" where
  "terminate_process force p =
     (if force then p\<lparr>running := running p \<and> \<not> exits_on_kill p\<rparr>
      else p\<lparr>running := running p \<and> \<not> exits_on_terminate p\<rparr>)"

text \<open>
  \<^verbatim>\<open>cleanup_tracked_subprocesses\<close>: the number of live handles found, and the registry
  left behind (pruned by the two calls of \<^verbatim>\<open>_collect_live_subprocesses\<close>).
\<close>

definition cleanup_tracked_subprocesses ::
  "tracked_process list \<Rightarrow> nat \<times> tracked_process list" where
  "cleanup_tracked_subprocesses reg =
     (let live = collect_live_subprocesses reg
      in if live = [] then (0, live)
         else
           let signalled = map (terminate_process False) live;
               killed = map (\<lambda>p. if running p then terminate_process True p else p) signalled
           in (length live, collect_live_subprocesses killed))"

text \<open>\<^verbatim>\<open>str\<close> of an integer, for the messages that print one.\<close>

fun str_nat :: "nat \<Rightarrow> string" where
  "str_nat n =
     (if n < 10 then [''0123456789'' ! n]
      else str_nat (n div 10) @ [''0123456789'' ! (n mod 10)])"

declare str_nat.simps [simp del]

definition str_int :: "int \<Rightarrow> string" where
  "str_int i = (if i < 0 then ''-'' @ str_nat (nat (- i)) else str_nat (nat i))"

text \<open>
  The operation handed to \<^verbatim>\<open>_run_with_timeout\<close>: it either completes after some
  seconds with a value or an exception, or never returns. Threads and the clock are
  reduced to what the code observes of them: after \<^verbatim>\<open>worker.join(timeout_sec)\<close> the
  worker is alive exactly when the operation needs more than \<open>timeout_sec\<close> seconds,
  and the two holders are filled only by a worker that has finished.
\<close>

datatype 'a operation = Completes rat "py_error + 'a" | Hangs

fun worker_is_alive :: "'a operation \<Rightarrow> int \<Rightarrow> bool" where
  "worker_is_alive (Completes d out) t = (of_int t < d)"
| "worker_is_alive Hangs t = True"

fun result_holder :: "'a operation \<Rightarrow> int \<Rightarrow> 'a option" where
  "result_holder (Completes d (Inr v)) t = (if of_int t < d then None else Some v)"
| "result_holder func t = None"

fun error_holder :: "'a operation \<Rightarrow> int \<Rightarrow> py_error option" where
  "error_holder (Completes d (Inl e)) t = (if of_int t < d then None else Some e)"
| "error_holder func t = None"

text \<open>
  \<^verbatim>\<open>_run_with_timeout\<close>. The result is \<open>None\<close> when the call never returns (no timeout
  and an operation that hangs); otherwise the value returned or the exception raised,
  with the registry as the call leaves it.
\<close>

definition run_with_timeout ::
  "'a operation \<Rightarrow> int option \<Rightarrow> string \<Rightarrow> tracked_process list
     \<Rightarrow> ((py_error + 'a) \<times> tracked_process list) option" where
  "run_with_timeout func timeout operation_name reg =
     (case timeout of
        None \<Rightarrow> (case func of Completes d out \<Rightarrow> Some (out, reg) | Hangs \<Rightarrow> None)
      | Some t \<Rightarrow>
          if t \<le> 0 then Some (Inl (ExecutorError ''timeout_sec must be greater than 0.''), reg)
          else if worker_is_alive func t
          then (case cleanup_tracked_subprocesses reg of
                  (cleaned, reg') \<Rightarrow>
                    Some (Inl (OperationTimeoutError
                                (operation_name @ '' timed out after '' @ str_int t @ '' seconds.'')
                                cleaned), reg'))
          else (case error_holder func t of
                  Some e \<Rightarrow> Some (Inl e, reg)
                | None \<Rightarrow>
                    (case result_holder func t of
                       None \<Rightarrow> Some (Inl (ExecutorError
                                 (operation_name @ '' failed without returning a result.'')), reg)
                     | Some v \<Rightarrow> Some (Inr v, reg))))"

section \<open>Executor: tasks and continuations\<close>

text \<open>The fields of \<^verbatim>\<open>SkillConfig\<close> that the executor reads on these paths.\<close>

record skill_config =
  default_provider :: string
  tap_only_mode :: bool
  default_device_id :: "string option"
  default_max_steps :: int
  default_operation_timeout_sec :: "int option"

text \<open>
  What one call observes of its collaborators: the outcome of \<^verbatim>\<open>list_devices()\<close>, the
  verdict of \<^verbatim>\<open>validate_provider\<close>, the identifier \<^verbatim>\<open>uuid\<close> supplies, the clock
  before the adapter runs and after it returned, whether the registry yields the adapter
  (\<open>Some e\<close>: \<^verbatim>\<open>_get_registry\<close> or \<^verbatim>\<open>registry.get\<close> raised \<open>e\<close>), how the adapter call
  behaves, and the caption \<^verbatim>\<open>_process_result\<close> obtains for the post-action state.
\<close>

record world =
  listed_devices :: "py_error + string list"
  provider_check :: "bool \<times> string"
  fresh_id :: string
  time_before :: rat
  time_after :: rat
  adapter_lookup :: "py_error option"
  adapter_call :: "pyval operation"
  caption :: string

text \<open>
  The executor's mutable state: its session manager and the module-level set of
  tracked subprocesses.
\<close>

record executor =
  config :: skill_config
  session_manager :: session_manager
  tracked :: "tracked_process list"

text \<open>
  The result dictionary. A key that a result does not carry is \<open>None\<close>. The keys that
  only echo the request or the device state (\<^verbatim>\<open>task\<close>, \<^verbatim>\<open>provider\<close>, \<^verbatim>\<open>device_id\<close>,
  \<^verbatim>\<open>caption\<close>, \<^verbatim>\<open>screenshot_path\<close>, \<^verbatim>\<open>current_app\<close>, \<^verbatim>\<open>allowed_commands\<close>) are left
  out.
\<close>

record task_result =
  success :: bool
  result_session_id :: "string option"
  error :: "string option"
  message :: string
  timed_out :: "bool option"
  terminated_subprocesses :: "nat option"
  timeout_sec :: "int option"
  session_mode :: "string option"
  session_persisted :: "bool option"
  continuation_supported :: "bool option"
  result_step_count :: "int option"
  next_action :: "string option"
  raw_result :: "pyval option"

definition error_result :: "string \<Rightarrow> string \<Rightarrow> task_result" where
  "error_result err msg =
     \<lparr> success = False, result_session_id = None, error = Some err, message = msg,
       timed_out = None, terminated_subprocesses = None, timeout_sec = None,
       session_mode = None, session_persisted = None, continuation_supported = None,
       result_step_count = None, next_action = None, raw_result = None \<rparr>"

definition TAP_ONLY_HINT :: string where
  "TAP_ONLY_HINT =
     ''Tap-only mode is enabled. `execute`/`continue` are disabled because no model provider is configured. '' @
     ''Use `tap`/`click` for coordinate control, or run `python install.py --provider <name>` to enable planner mode.''"

definition tap_only_error_result :: "string \<Rightarrow> task_result" where
  "tap_only_error_result command =
     (error_result ''tap_only_mode_enabled''
        (''`'' @ command @ ''` is unavailable in tap-only mode. '' @ TAP_ONLY_HINT))
       \<lparr> session_mode := Some ''direct_coordinate_only'',
         session_persisted := Some False,
         continuation_supported := Some False \<rparr>"

text \<open>The \<^verbatim>\<open>except Exception as e\<close> blocks of \<^verbatim>\<open>execute_task\<close> and \<^verbatim>\<open>continue_session\<close>.\<close>

definition failure_result :: "string \<Rightarrow> string \<Rightarrow> py_error \<Rightarrow> int option \<Rightarrow> task_result" where
  "failure_result prefix sid e timeout =
     (error_result (error_text e) (prefix @ error_text e))
       \<lparr> result_session_id := Some sid,
         timed_out := Some (is_timeout_error e),
         terminated_subprocesses := terminated_of e,
         timeout_sec := timeout \<rparr>"

definition generate_message :: "string \<Rightarrow> string \<Rightarrow> bool \<Rightarrow> string" where
  "generate_message action cap continuation =
     (let msg = (if action = ''complete'' then ''Task completed. '' @ cap
                 else if action = ''needs_reply''
                 then ''User reply required. Current state: '' @ cap
                 else ''Task in progress. Current state: '' @ cap)
      in if \<not> continuation \<and> action \<noteq> ''complete''
         then msg @ '' Stateless mode is active; run execute --stateless for the next independent call.''
         else msg)"

text \<open>
  \<^verbatim>\<open>_process_result\<close>: the next action, the session update when the call is persisted,
  and the outward record.
\<close>

definition process_result ::
  "session_manager \<Rightarrow> string \<Rightarrow> pyval \<Rightarrow> bool \<Rightarrow> rat \<Rightarrow> string
     \<Rightarrow> session_manager \<times> task_result" where
  "process_result m sid payload persist_session now cap =
     (let action = determine_next_action payload;
          (m', count) =
            (if persist_session
             then (case update_session m sid payload
                          (Some (if action = ''complete'' then ''completed'' else ''active'')) now of
                     (m', updated) \<Rightarrow>
                       (m', case updated of Some s \<Rightarrow> step_count s | None \<Rightarrow> 1))
             else (m, 1))
      in (m',
          \<lparr> success = True, result_session_id = Some sid, error = None,
            message = generate_message action cap persist_session,
            timed_out = Some False, terminated_subprocesses = None, timeout_sec = None,
            session_mode = Some (if persist_session then ''stateful'' else ''stateless''),
            session_persisted = Some persist_session,
            continuation_supported = Some persist_session,
            result_step_count = Some count, next_action = Some action,
            raw_result = Some payload \<rparr>))"

text \<open>\<^verbatim>\<open>max_steps or default\<close>: \<^verbatim>\<open>None\<close> and \<^verbatim>\<open>0\<close> give the default.\<close>

fun or_default :: "int option \<Rightarrow> int \<Rightarrow> int" where
  "or_default None d = d"
| "or_default (Some n) d = (if n = 0 then d else n)"

text \<open>\<^verbatim>\<open>timeout_sec if timeout_sec is not None else default\<close>\<close>

fun timeout_or_default :: "int option \<Rightarrow> int option \<Rightarrow> int option" where
  "timeout_or_default None d = d"
| "timeout_or_default (Some t) d = Some t"



text \<open>
  The body of the two \<^verbatim>\<open>try\<close> blocks from the registry lookup on: find the adapter,
  then run its call under the timeout. \<open>None\<close>: the call never returns.
\<close>

definition invoke_adapter ::
  "world \<Rightarrow> int option \<Rightarrow> string \<Rightarrow> tracked_process list
     \<Rightarrow> ((py_error + pyval) \<times> tracked_process list) option" where
  "invoke_adapter w timeout operation_name reg =
     (case adapter_lookup w of
        Some e \<Rightarrow> Some (Inl e, reg)
      | None \<Rightarrow> run_with_timeout (adapter_call w) timeout operation_name reg)"


text \<open>\<^verbatim>\<open>continue_session\<close>, with the same conventions.\<close>

definition continue_session ::
  "executor \<Rightarrow> world \<Rightarrow> string option \<Rightarrow> string option \<Rightarrow> int option \<Rightarrow> int option
     \<Rightarrow> (task_result \<times> executor) option" where
  "continue_session ex w sid dev max_steps timeout =
     (if tap_only_mode (config ex) then Some (tap_only_error_result ''continue'', ex)
      else
        (case (case sid of
                 None \<Rightarrow> get_latest_session (session_manager ex) dev (time_before w)
               | Some k \<Rightarrow> get_session (session_manager ex) k (time_before w)) of
           (m1, None) \<Rightarrow>
             Some ((case sid of
                      None \<Rightarrow> error_result ''No active session found''
                                ''No active session to continue. Start a new task first.''
                    | Some k \<Rightarrow> error_result (''Session not found: '' @ k)
                                (''Session '' @ k @ '' not found or expired.'')),
                   ex\<lparr>session_manager := m1\<rparr>)
         | (m1, Some s) \<Rightarrow>
             if status s \<noteq> ''active''
             then Some (error_result (''Session is '' @ status s)
                          (''Cannot continue session: status is '' @ status s @ ''.''),
                        ex\<lparr>session_manager := m1\<rparr>)
             else
               let steps = or_default max_steps (default_max_steps (config ex));
                   timeout' = timeout_or_default timeout
                                (default_operation_timeout_sec (config ex))
               in if steps \<le> 0
                  then Some ((error_result ''Invalid max_steps: must be > 0''
                                ''Invalid max_steps: must be > 0'')
                               \<lparr>result_session_id := Some (session_id s)\<rparr>,
                             ex\<lparr>session_manager := m1\<rparr>)
                  else
                    (case (case ensure_device_connected (listed_devices w) (device_id s) of
                             Inl e \<Rightarrow> Some (Inl e, tracked ex)
                           | Inr u \<Rightarrow> invoke_adapter w timeout' ''continue'' (tracked ex)) of
                       None \<Rightarrow> None
                     | Some (Inl e, reg) \<Rightarrow>
                         Some (failure_result ''Continue task failed: '' (session_id s) e timeout',
                               ex\<lparr>session_manager := m1, tracked := reg\<rparr>)
                     | Some (Inr payload, reg) \<Rightarrow>
                         (case process_result m1 (session_id s) payload True
                                 (time_after w) (caption w) of
                            (m2, r) \<Rightarrow>
                              Some (r, ex\<lparr>session_manager := m2, tracked := reg\<rparr>)))))"

section \<open>Reported outcomes and sample data\<close>



text \<open>A registry of three handles, two of them alive, used to run the definitions.\<close>

definition demo_registry :: "tracked_process list" where
  "demo_registry =
     [\<lparr>pid = 101, running = True, exits_on_terminate = False, exits_on_kill = True\<rparr>,
      \<lparr>pid = 102, running = False, exits_on_terminate = True, exits_on_kill = True\<rparr>,
      \<lparr>pid = 103, running = True, exits_on_terminate = True, exits_on_kill = True\<rparr>]"

text \<open>A store holding one active session, and the session it holds.\<close>

definition demo_session :: session where
  "demo_session =
     \<lparr> session_id = ''ab12cd34'', device_id = ''emulator-5554'', provider = ''local'',
       task = ''open settings'', created_at = 100, updated_at = 100, status = ''active'',
       step_count = 0, last_result = PDict [], history = [] \<rparr>"

definition demo_manager :: session_manager where
  "demo_manager =
     \<lparr> expire_seconds = 3600, sessions = [(''ab12cd34'', demo_session)],
       storage = [''ab12cd34'' \<mapsto> demo_session] \<rparr>"

text \<open>
  A finished session, an executor whose store holds the active and the finished one, and
  a world: one connected device, a valid provider, the clock at \<open>t\<close> before the adapter
  runs and ten seconds later after it, and the adapter call behaving as \<open>call\<close>.
\<close>

definition done_session :: session where
  "done_session =
     \<lparr> session_id = ''c0ffee00'', device_id = ''emulator-5554'', provider = ''local'',
       task = ''send mail'', created_at = 50, updated_at = 100, status = ''completed'',
       step_count = 1, last_result = PDict [(''status'', PStr ''done'')],
       history = [\<lparr> step = 1, timestamp = 100,
                    result = PDict [(''status'', PStr ''done'')] \<rparr>] \<rparr>"

definition demo_executor :: executor where
  "demo_executor =
     \<lparr> config = \<lparr> default_provider = ''local'', tap_only_mode = False,
                  default_device_id = None, default_max_steps = 20,
                  default_operation_timeout_sec = Some 30 \<rparr>,
       session_manager =
         \<lparr> expire_seconds = 3600,
           sessions = [(''ab12cd34'', demo_session), (''c0ffee00'', done_session)],
           storage = [''ab12cd34'' \<mapsto> demo_session, ''c0ffee00'' \<mapsto> done_session] \<rparr>,
       tracked = demo_registry \<rparr>"

definition demo_world :: "rat \<Rightarrow> pyval operation \<Rightarrow> world" where
  "demo_world t call =
     \<lparr> listed_devices = Inr [''emulator-5554''], provider_check = (True, ''OK''),
       fresh_id = ''0f0f0f0f'', time_before = t, time_after = t + 10,
       adapter_lookup = None, adapter_call = call,
       caption = ''current_app=com.android.settings'' \<rparr>"

section \<open>Store invariant\<close>

text \<open>
  What holds of \<^verbatim>\<open>_sessions\<close> by construction: a dictionary has each key once, and
  every session is filed under its own \<^verbatim>\<open>session_id\<close> (\<^verbatim>\<open>create_session\<close> and
  \<^verbatim>\<open>_load_sessions\<close> both store \<^verbatim>\<open>self._sessions[session.session_id] = session\<close>).
\<close>

definition wf_store :: "session_manager \<Rightarrow> bool" where
  "wf_store m \<longleftrightarrow>
     distinct (map fst (sessions m)) \<and> list_all (\<lambda>(k, s). session_id s = k) (sessions m)"

text \<open>The effect of one round of the loop of \<^verbatim>\<open>list_active_sessions\<close> on one session.\<close>

definition sweep :: "session_manager \<Rightarrow> rat \<Rightarrow> session \<Rightarrow> session" where
  "sweep m now s =
     (if status s = ''active'' \<and> stale m now s then s\<lparr>status := ''expired''\<rparr> else s)"

section \<open>Properties of the coordinate resolver\<close>

lemma py_round_lower: "r - 1 / 2 \<le> of_int (py_round r)"
  unfolding py_round_def Let_def by (auto; linarith)

lemma py_round_upper: "of_int (py_round r) \<le> r + 1 / 2"
  unfolding py_round_def Let_def by (auto; linarith)

lemma py_round_nearest: "nearest_integer r (py_round r)"
  unfolding nearest_integer_def abs_le_iff
  using py_round_lower [of r] py_round_upper [of r] by linarith

lemma py_round_le:
  assumes "r \<le> of_int n"
  shows "py_round r \<le> n"
proof -
  have "(of_int (py_round r) :: rat) < of_int (n + 1)"
    using py_round_upper [of r] assms by simp
  then show ?thesis by simp
qed

lemma py_round_ge:
  assumes "of_int n \<le> r"
  shows "n \<le> py_round r"
proof -
  have "(of_int (n - 1) :: rat) < of_int (py_round r)"
    using py_round_lower [of r] assms by simp
  then show ?thesis by simp
qed

lemma round_and_clamp_Inr:
  assumes "round_and_clamp x y cs es w h raw_x raw_y = Inr r"
  shows "\<exists>rx ry. r = tap_detail x y cs es w h rx ry"
  using assms by (auto simp: round_and_clamp_def split: sum.splits)

lemma round_and_clamp_finite:
  "round_and_clamp x y cs es w h (Finite rx) (Finite ry)
     = Inr (tap_detail x y cs es w h (py_round rx) (py_round ry))"
  by (simp add: round_and_clamp_def)

lemma round_and_clamp_raises:
  assumes "int_round raw_x = Inl e"
  shows "round_and_clamp x y cs es w h raw_x raw_y = Inl e"
  using assms by (simp add: round_and_clamp_def)

lemma resolve_Inr_cases:
  assumes "resolve_tap_coordinate mul x y cs w h = Inr r"
  obtains es rx ry where "r = tap_detail x y cs es w h rx ry" "0 < w" "0 < h"
proof -
  from assms have pos: "0 < w" "0 < h"
    by (simp_all add: resolve_tap_coordinate_def split: if_splits)
  from assms pos have "\<exists>es raw_x raw_y. round_and_clamp x y cs es w h raw_x raw_y = Inr r"
    unfolding resolve_tap_coordinate_def Let_def
    by (simp split: if_splits sum.splits) blast+
  then have "\<exists>es rx ry. r = tap_detail x y cs es w h rx ry"
    using round_and_clamp_Inr by blast
  with pos that show thesis by blast
qed

lemma tap_detail_range:
  assumes "0 < w" "0 < h"
  shows "tap_x (tap_detail x y cs es w h rx ry) \<in> {0 .. w - 1}"
    and "tap_y (tap_detail x y cs es w h rx ry) \<in> {0 .. h - 1}"
  using assms by (simp_all add: tap_detail_def Let_def)

lemma tap_detail_clamped:
  "clamped (tap_detail x y cs es w h rx ry) \<longleftrightarrow>
     (computed_x (tap_detail x y cs es w h rx ry), computed_y (tap_detail x y cs es w h rx ry))
       \<noteq> (tap_x (tap_detail x y cs es w h rx ry), tap_y (tap_detail x y cs es w h rx ry))"
  by (simp add: tap_detail_def Let_def) metis

text \<open>
  Claim C2. Whenever the resolution succeeds on a screen of positive width and height,
  the tap point lies in \<open>[0, screen_width - 1] \<fmul> [0, screen_height - 1]\<close>, and the
  \<open>clamped\<close> flag is set exactly when the rounded point before clamping differs from the
  tap point. This holds however the float product is rounded.
\<close>

theorem resolve_tap_in_screen:
  assumes "0 < screen_width" and "0 < screen_height"
    and "resolve_tap_coordinate mul x y coord_space screen_width screen_height = Inr r"
  shows "tap_x r \<in> {0 .. screen_width - 1} \<and> tap_y r \<in> {0 .. screen_height - 1} \<and>
         (clamped r \<longleftrightarrow> (computed_x r, computed_y r) \<noteq> (tap_x r, tap_y r))"
proof -
  from assms(3) obtain es rx ry
    where r: "r = tap_detail x y coord_space es screen_width screen_height rx ry"
    by (rule resolve_Inr_cases)
  show ?thesis
    unfolding r
    using tap_detail_range [OF assms(1,2)] tap_detail_clamped by blast
qed

lemma ratio_resolves:
  assumes "0 < w" "0 < h"
    and "mul x (w - 1) = Inr (Finite rx)" and "mul y (h - 1) = Inr (Finite ry)"
  shows "resolve_tap_coordinate mul x y ''ratio'' w h =
      Inr (tap_detail x y ''ratio'' ''ratio'' w h (py_round rx) (py_round ry))"
  using assms by (simp add: resolve_tap_coordinate_def Let_def round_and_clamp_finite)

lemma pixel_raises:
  assumes "0 < w" "0 < h" and "int_round x = Inl e"
  shows "resolve_tap_coordinate mul x y ''pixel'' w h = Inl e"
  using assms by (simp add: resolve_tap_coordinate_def Let_def round_and_clamp_raises)

theorem resolve_tap_in_screen_witness:
  "(0::int) < 1080 \<and> (0::int) < 2400 \<and>
   (\<exists>r. resolve_tap_coordinate exact_product (Finite (3 / 2)) (Finite (1 / 2)) ''ratio''
           1080 2400 = Inr r \<and>
        tap_x r \<in> {0 .. 1080 - 1} \<and> tap_y r \<in> {0 .. 2400 - 1} \<and>
        (clamped r \<longleftrightarrow> (computed_x r, computed_y r) \<noteq> (tap_x r, tap_y r)))"
proof -
  have e: "resolve_tap_coordinate exact_product (Finite (3 / 2)) (Finite (1 / 2)) ''ratio''
             1080 2400 =
      Inr (tap_detail (Finite (3 / 2)) (Finite (1 / 2)) ''ratio'' ''ratio'' 1080 2400
             (py_round (3 / 2 * of_int (1080 - 1))) (py_round (1 / 2 * of_int (2400 - 1))))"
    by (rule ratio_resolves) simp_all
  from resolve_tap_in_screen [OF _ _ e] show ?thesis
    unfolding e by simp
qed

lemma spec_clamp_eq: "0 < d \<Longrightarrow> spec_clamp d v = max 0 (min (d - 1) v)"
  by (simp add: spec_clamp_def)

lemma spec_detail_eq:
  assumes "0 < w" "0 < h"
  shows "tap_detail x y cs es w h rx ry =
     \<lparr> input_x = x, input_y = y, input_coord_space = cs,
       effective_coord_space = es,
       screen_size_width = w, screen_size_height = h,
       computed_x = rx, computed_y = ry,
       tap_x = spec_clamp w rx, tap_y = spec_clamp h ry,
       clamped = (spec_clamp w rx \<noteq> rx \<or> spec_clamp h ry \<noteq> ry) \<rparr>"
  using assms by (simp add: tap_detail_def Let_def spec_clamp_eq)

lemma spec_space_eq:
  "spec_space x y cs =
     (if cs = ''auto''
      then (if in_unit_range (Finite x) \<and> in_unit_range (Finite y) then ''ratio''
            else ''pixel'')
      else cs)"
  by (simp add: spec_space_def)

lemma resolve_eq_spec:
  assumes "spec_space x y cs = ''ratio'' \<and> 0 < w \<and> 0 < h \<longrightarrow>
             mul (Finite x) (w - 1) = Inr (Finite (fmul x (w - 1))) \<and>
             mul (Finite y) (h - 1) = Inr (Finite (fmul y (h - 1)))"
  shows "resolve_tap_coordinate mul (Finite x) (Finite y) cs w h = spec_resolve fmul x y cs w h"
proof (cases "w \<le> 0 \<or> h \<le> 0")
  case True
  then show ?thesis by (simp add: resolve_tap_coordinate_def spec_resolve_def)
next
  case False
  then have pos: "0 < w" "0 < h" by simp_all
  define es where "es = spec_space x y cs"
  have spec: "spec_resolve fmul x y cs w h =
      (if es \<noteq> ''ratio'' \<and> es \<noteq> ''pixel''
       then Inl (ExecutorError (''Unsupported coord_space: '' @ cs))
       else Inr (tap_detail (Finite x) (Finite y) cs es w h
                   (py_round (spec_raw fmul es x w)) (py_round (spec_raw fmul es y h))))"
    using False unfolding spec_resolve_def Let_def es_def [symmetric] spec_detail_eq [OF pos]
    by simp
  have code: "resolve_tap_coordinate mul (Finite x) (Finite y) cs w h =
      (if es = ''ratio''
       then (case mul (Finite x) (w - 1) of
               Inl e \<Rightarrow> Inl e
             | Inr raw_x \<Rightarrow>
                 (case mul (Finite y) (h - 1) of
                    Inl e \<Rightarrow> Inl e
                  | Inr raw_y \<Rightarrow>
                      round_and_clamp (Finite x) (Finite y) cs es w h raw_x raw_y))
       else if es = ''pixel''
       then round_and_clamp (Finite x) (Finite y) cs es w h (Finite x) (Finite y)
       else Inl (ExecutorError (''Unsupported coord_space: '' @ cs)))"
    using False unfolding resolve_tap_coordinate_def Let_def es_def spec_space_eq by simp
  show ?thesis
  proof (cases "es = ''ratio''")
    case True
    with assms pos have "mul (Finite x) (w - 1) = Inr (Finite (fmul x (w - 1)))"
      and "mul (Finite y) (h - 1) = Inr (Finite (fmul y (h - 1)))"
      by (simp_all add: es_def)
    with True show ?thesis
      unfolding code spec by (simp add: round_and_clamp_finite spec_raw_def)
  next
    case False
    then show ?thesis
      unfolding code spec by (simp add: round_and_clamp_finite spec_raw_def)
  qed
qed

text \<open>
  Claim C3 as stated fails for an input that is not a finite number: on a valid screen,
  in pixel space, the reference definition leaves the coordinate unchanged, rounds and
  clamps it, but for \<open>x = inf\<close> the code raises \<^verbatim>\<open>OverflowError\<close> from
  \<^verbatim>\<open>int(round(raw_x))\<close>: it neither returns a point nor fails with an invalid-argument
  error.
\<close>

theorem resolve_tap_refines_spec_counterexample:
  "(0::int) < 1080 \<and> (0::int) < 2400 \<and>
   resolve_tap_coordinate exact_product PosInf (Finite (1 / 2)) ''pixel'' 1080 2400
     = Inl (OverflowError ''cannot convert float infinity to integer'') \<and>
   \<not> (\<exists>r. resolve_tap_coordinate exact_product PosInf (Finite (1 / 2)) ''pixel'' 1080 2400
            = Inr r) \<and>
   (\<forall>m. resolve_tap_coordinate exact_product PosInf (Finite (1 / 2)) ''pixel'' 1080 2400
            \<noteq> Inl (ExecutorError m))"
  by (simp add: resolve_tap_coordinate_def round_and_clamp_def)

text \<open>
  Claim C3, amended. For all finite coordinates, the two products being finite floats
  when the space resolves to \<open>ratio\<close> on a valid screen, the resolver of the code equals
  the reference definition \<open>spec_resolve\<close>: invalid-argument failure for a non-positive
  width or height; \<open>auto\<close> resolved as \<open>ratio\<close> exactly when both coordinates lie in
  \<open>[0, 1]\<close> and as \<open>pixel\<close> otherwise; \<open>ratio\<close> mapping a coordinate to
  \<open>coordinate * (dimension - 1)\<close> and \<open>pixel\<close> leaving it unchanged; rounding to a
  nearest integer, then clamping into \<open>[0, dimension - 1]\<close>; invalid-argument failure
  for any other space. The product is the machine's on both sides, and the rounding is a
  nearest integer of its argument. On a valid screen in pixel space, an \<open>x\<close> that
  \<^verbatim>\<open>round\<close> refuses (NaN, an infinity) makes the resolution raise the error of
  \<^verbatim>\<open>round\<close> instead.
\<close>

theorem resolve_tap_refines_spec:
  assumes "spec_space x y coord_space = ''ratio'' \<and> 0 < screen_width \<and> 0 < screen_height \<longrightarrow>
             mul (Finite x) (screen_width - 1) = Inr (Finite (fmul x (screen_width - 1))) \<and>
             mul (Finite y) (screen_height - 1) = Inr (Finite (fmul y (screen_height - 1)))"
  shows "resolve_tap_coordinate mul (Finite x) (Finite y) coord_space screen_width screen_height
           = spec_resolve fmul x y coord_space screen_width screen_height
       \<and> nearest_integer raw (py_round raw)
       \<and> (0 < screen_width \<and> 0 < screen_height \<and> int_round px = Inl e \<longrightarrow>
            resolve_tap_coordinate mul px py ''pixel'' screen_width screen_height = Inl e)"
  using resolve_eq_spec [OF assms] py_round_nearest pixel_raises by simp

theorem resolve_tap_refines_spec_witness:
  "resolve_tap_coordinate exact_product (Finite (1 / 2)) (Finite (1 / 2)) ''ratio'' 1080 2400
     = spec_resolve (\<lambda>c n. c * of_int n) (1 / 2) (1 / 2) ''ratio'' 1080 2400
   \<and> nearest_integer (1079 / 2) (py_round (1079 / 2))
   \<and> (\<exists>r. spec_resolve (\<lambda>c n. c * of_int n) (1 / 2) (1 / 2) ''ratio'' 1080 2400 = Inr r \<and>
           computed_x r = 540 \<and> computed_y r = 1200 \<and> tap_x r = 540 \<and> tap_y r = 1200 \<and>
           \<not> clamped r)
   \<and> resolve_tap_coordinate exact_product NaN (Finite (1 / 2)) ''pixel'' 1080 2400
       = Inl (ValueError ''cannot convert float NaN to integer'')"
proof -
  have rx: "py_round (1 / 2 * of_int (1080 - 1)) = 540" by code_simp
  have ry: "py_round (1 / 2 * of_int (2400 - 1)) = 1200" by code_simp
  have "resolve_tap_coordinate exact_product (Finite (1 / 2)) (Finite (1 / 2)) ''ratio''
          1080 2400
      = Inr (tap_detail (Finite (1 / 2)) (Finite (1 / 2)) ''ratio'' ''ratio'' 1080 2400
               (py_round (1 / 2 * of_int (1080 - 1))) (py_round (1 / 2 * of_int (2400 - 1))))"
    by (rule ratio_resolves) simp_all
  then have v: "\<exists>r. resolve_tap_coordinate exact_product (Finite (1 / 2)) (Finite (1 / 2))
                   ''ratio'' 1080 2400 = Inr r \<and>
           computed_x r = 540 \<and> computed_y r = 1200 \<and> tap_x r = 540 \<and> tap_y r = 1200 \<and>
           \<not> clamped r"
    unfolding rx ry by (simp add: tap_detail_def Let_def)
  have h: "spec_space (1 / 2) (1 / 2) ''ratio'' = ''ratio'' \<and> (0::int) < 1080 \<and> (0::int) < 2400 \<longrightarrow>
      exact_product (Finite (1 / 2)) (1080 - 1) = Inr (Finite (1 / 2 * of_int (1080 - 1))) \<and>
      exact_product (Finite (1 / 2)) (2400 - 1) = Inr (Finite (1 / 2 * of_int (2400 - 1)))"
    by simp
  have n: "(0::int) < 1080 \<and> (0::int) < 2400 \<and>
      int_round NaN = Inl (ValueError ''cannot convert float NaN to integer'')"
    by simp
  from resolve_tap_refines_spec [of "1 / 2" "1 / 2" "''ratio''" 1080 2400 exact_product
      "\<lambda>c n. c * of_int n" "1079 / 2" NaN "ValueError ''cannot convert float NaN to integer''"
      "Finite (1 / 2)", OF h] v n
  show ?thesis by simp
qed

subsection \<open>A ratio beyond the right edge\<close>

lemma tap_detail_overshoot:
  assumes "0 < w" "w \<le> rx"
  shows "clamped (tap_detail x y cs es w h rx ry)"
    and "tap_x (tap_detail x y cs es w h rx ry) = w - 1"
  using assms by (simp_all add: tap_detail_def Let_def)

lemma tap_detail_inside:
  assumes "0 \<le> rx" "rx \<le> w - 1" "0 \<le> ry" "ry \<le> h - 1"
  shows "\<not> clamped (tap_detail x y cs es w h rx ry)"
    and "tap_x (tap_detail x y cs es w h rx ry) = rx"
  using assms by (simp_all add: tap_detail_def Let_def)

lemma round_past_edge:
  assumes "2 \<le> w"
  shows "w \<le> py_round (3 / 2 * of_int (w - 1))"
proof (cases "w = 2")
  case True
  have "py_round (3 / 2 * of_int (2 - 1)) = 2" by code_simp
  with True show ?thesis by simp
next
  case False
  with assms have "3 \<le> w" by simp
  then have "(of_int w :: rat) \<le> 3 / 2 * of_int (w - 1)" by simp
  then show ?thesis by (rule py_round_ge)
qed

lemma round_half_inside:
  assumes "0 < h"
  shows "0 \<le> py_round (1 / 2 * of_int (h - 1))" "py_round (1 / 2 * of_int (h - 1)) \<le> h - 1"
proof -
  from assms have "(of_int 0 :: rat) \<le> 1 / 2 * of_int (h - 1)" by simp
  then show "0 \<le> py_round (1 / 2 * of_int (h - 1))" by (rule py_round_ge)
  from assms have "1 / 2 * of_int (h - 1) \<le> (of_int (h - 1) :: rat)" by simp
  then show "py_round (1 / 2 * of_int (h - 1)) \<le> h - 1" by (rule py_round_le)
qed

text \<open>
  Claim C8 as stated fails on a screen one pixel wide: \<open>x = 1.5\<close> in ratio space maps to
  \<open>1.5 * 0 = 0\<close>, which is already the only column, so nothing is clamped.
\<close>

theorem ratio_overshoot_counterexample:
  "(0::int) < 1 \<and>
   \<not> (\<exists>r. resolve_tap_coordinate exact_product (Finite (3 / 2)) (Finite (1 / 2)) ''ratio''
              1 1 = Inr r \<and>
            clamped r \<and> tap_x r = 1 - 1)"
  by (simp add: resolve_tap_coordinate_def round_and_clamp_def tap_detail_def Let_def
        py_round_def)

text \<open>
  Claim C8, amended. For every positive height, the products \<open>1.5 * (screen_width - 1)\<close>
  and \<open>0.5 * (screen_height - 1)\<close> being computed without rounding error: on a screen at
  least two pixels wide, resolving \<open>x = 1.5, y = 0.5\<close> in ratio space yields
  \<open>clamped = true\<close> and a tap \<open>x\<close> of \<open>screen_width - 1\<close>; on a screen one pixel wide the
  tap \<open>x\<close> is still \<open>screen_width - 1 = 0\<close> but \<open>clamped\<close> is false.
\<close>

theorem ratio_overshoot:
  assumes "0 < screen_height"
    and "mul (Finite (3 / 2)) (screen_width - 1)
           = exact_product (Finite (3 / 2)) (screen_width - 1)"
    and "mul (Finite (1 / 2)) (screen_height - 1)
           = exact_product (Finite (1 / 2)) (screen_height - 1)"
  shows "(2 \<le> screen_width \<longrightarrow>
           (\<exists>r. resolve_tap_coordinate mul (Finite (3 / 2)) (Finite (1 / 2)) ''ratio''
                   screen_width screen_height = Inr r
                \<and> clamped r \<and> tap_x r = screen_width - 1))
       \<and> (screen_width = 1 \<longrightarrow>
           (\<exists>r. resolve_tap_coordinate mul (Finite (3 / 2)) (Finite (1 / 2)) ''ratio''
                   screen_width screen_height = Inr r
                \<and> \<not> clamped r \<and> tap_x r = screen_width - 1))"
proof (intro conjI impI)
  from assms(2) have mx: "mul (Finite (3 / 2)) (screen_width - 1)
      = Inr (Finite (3 / 2 * of_int (screen_width - 1)))"
    by simp
  from assms(3) have my: "mul (Finite (1 / 2)) (screen_height - 1)
      = Inr (Finite (1 / 2 * of_int (screen_height - 1)))"
    by simp
  {
    assume w: "2 \<le> screen_width"
    then have pos: "0 < screen_width" by simp
    from tap_detail_overshoot [OF pos round_past_edge [OF w]]
    show "\<exists>r. resolve_tap_coordinate mul (Finite (3 / 2)) (Finite (1 / 2)) ''ratio''
                  screen_width screen_height = Inr r
               \<and> clamped r \<and> tap_x r = screen_width - 1"
      unfolding ratio_resolves [OF pos assms(1) mx my] by simp
  }
  {
    assume w: "screen_width = 1"
    have z: "py_round (3 / 2 * of_int (1 - 1)) = 0" by (simp add: py_round_def)
    have "\<not> clamped (tap_detail (Finite (3 / 2)) (Finite (1 / 2)) ''ratio'' ''ratio'' 1
              screen_height (py_round (3 / 2 * of_int (1 - 1)))
              (py_round (1 / 2 * of_int (screen_height - 1))))"
      and "tap_x (tap_detail (Finite (3 / 2)) (Finite (1 / 2)) ''ratio'' ''ratio'' 1
              screen_height (py_round (3 / 2 * of_int (1 - 1)))
              (py_round (1 / 2 * of_int (screen_height - 1)))) = 0"
      using tap_detail_inside [of "py_round (3 / 2 * of_int (1 - 1))" 1,
          OF _ _ round_half_inside [OF assms(1)]]
      unfolding z by simp_all
    then show "\<exists>r. resolve_tap_coordinate mul (Finite (3 / 2)) (Finite (1 / 2)) ''ratio''
                  screen_width screen_height = Inr r
               \<and> \<not> clamped r \<and> tap_x r = screen_width - 1"
      unfolding w ratio_resolves [OF zero_less_one assms(1) mx [unfolded w] my] by simp
  }
qed

theorem ratio_overshoot_witness:
  "(0::int) < 2400 \<and> (2::int) \<le> 1080 \<and>
     (\<exists>r. resolve_tap_coordinate exact_product (Finite (3 / 2)) (Finite (1 / 2)) ''ratio''
             1080 2400 = Inr r
           \<and> clamped r \<and> tap_x r = 1079)
   \<and> (\<exists>r. resolve_tap_coordinate exact_product (Finite (3 / 2)) (Finite (1 / 2)) ''ratio''
             1 2400 = Inr r
           \<and> \<not> clamped r \<and> tap_x r = 0)"
  using ratio_overshoot [of 2400 exact_product 1080] ratio_overshoot [of 2400 exact_product 1]
  by simp

section \<open>Properties of the next action\<close>






section \<open>Properties of the device selector\<close>

text \<open>
  Claim C4 as stated fails when an explicit identifier is given and no device is
  connected: the call fails with the "no devices" hint, not with "not connected".
\<close>

theorem select_device_counterexample:
  "given (Some ''emulator-5554'') \<and> ''emulator-5554'' \<notin> set [] \<and>
   select_device (Some ''emulator-5554'') None (Inr [])
     \<noteq> Inl (ExecutorError (not_connected_message ''emulator-5554'' [])) \<and>
   select_device (Some ''emulator-5554'') None (Inr []) = Inl (ExecutorError NO_DEVICE_HINT)"
  by (simp add: select_device_def ensure_device_connected_def NO_DEVICE_HINT_def
        not_connected_message_def)

lemma ensure_connected_listed:
  "ensure_device_connected (Inr devices) dev =
     (if devices = [] then Inl (ExecutorError NO_DEVICE_HINT)
      else if dev \<in> set devices then Inr ()
      else Inl (ExecutorError (not_connected_message dev devices)))"
  by (simp add: ensure_device_connected_def)

text \<open>
  Claim C4, amended. With the list of connected devices at hand, and an identifier
  counting as given when it is a non-empty string: an explicit identifier wins; the call
  fails with "no devices" when nothing is connected, returns the identifier when it is
  connected, and fails with "not connected" otherwise. Else the configured default is
  checked the same way. Else the call fails with "no devices" on an empty list, with the
  ambiguity error listing the candidates when more than one device is connected, and
  returns the sole device otherwise.
\<close>

theorem select_device_precedence:
  "(\<forall>e. given explicit_id \<and> explicit_id = Some e \<longrightarrow>
      select_device explicit_id default_id (Inr devices) =
        (if devices = [] then Inl (ExecutorError NO_DEVICE_HINT)
         else if e \<in> set devices then Inr e
         else Inl (ExecutorError (not_connected_message e devices))))
 \<and> (\<forall>d. \<not> given explicit_id \<and> given default_id \<and> default_id = Some d \<longrightarrow>
      select_device explicit_id default_id (Inr devices) =
        (if devices = [] then Inl (ExecutorError NO_DEVICE_HINT)
         else if d \<in> set devices then Inr d
         else Inl (ExecutorError (not_connected_message d devices))))
 \<and> (\<not> given explicit_id \<and> \<not> given default_id \<longrightarrow>
      (devices = [] \<longrightarrow>
         select_device explicit_id default_id (Inr devices) = Inl (ExecutorError NO_DEVICE_HINT))
    \<and> (1 < length devices \<longrightarrow>
         select_device explicit_id default_id (Inr devices) =
           Inl (ExecutorError (multiple_devices_message devices)))
    \<and> (\<forall>sole. devices = [sole] \<longrightarrow>
         select_device explicit_id default_id (Inr devices) = Inr sole))"
  by (auto simp: select_device_def ensure_connected_listed)

theorem select_device_precedence_witness:
  "select_device (Some ''a'') (Some ''b'') (Inr [''b'', ''a'']) = Inr ''a''
 \<and> select_device (Some ''a'') (Some ''b'') (Inr [''b'', ''c''])
     = Inl (ExecutorError (not_connected_message ''a'' [''b'', ''c'']))
 \<and> select_device (Some ''a'') (Some ''b'') (Inr []) = Inl (ExecutorError NO_DEVICE_HINT)
 \<and> select_device (Some '''') (Some ''b'') (Inr [''a'', ''b'']) = Inr ''b''
 \<and> select_device None (Some ''b'') (Inr []) = Inl (ExecutorError NO_DEVICE_HINT)
 \<and> select_device None None (Inr []) = Inl (ExecutorError NO_DEVICE_HINT)
 \<and> select_device None None (Inr [''a'', ''b''])
     = Inl (ExecutorError (multiple_devices_message [''a'', ''b'']))
 \<and> multiple_devices_message [''a'', ''b'']
     = ''Multiple devices found: a, b. Use --device-id to choose one.''
 \<and> select_device None None (Inr [''a'']) = Inr ''a''"
  using select_device_precedence [of "Some ''a''" "Some ''b''" "[''b'', ''a'']"]
    select_device_precedence [of "Some ''a''" "Some ''b''" "[''b'', ''c'']"]
    select_device_precedence [of "Some ''a''" "Some ''b''" "[]"]
    select_device_precedence [of "Some ''''" "Some ''b''" "[''a'', ''b'']"]
    select_device_precedence [of "None" "Some ''b''" "[]"]
    select_device_precedence [of "None" "None" "[]"]
    select_device_precedence [of "None" "None" "[''a'', ''b'']"]
    select_device_precedence [of "None" "None" "[''a'']"]
  by (simp add: multiple_devices_message_def)

section \<open>Properties of the timeout executor\<close>







section \<open>Properties of the session store\<close>

lemma create_session_eq:
  "create_session m dev prov tsk new_id now = (m', s) \<Longrightarrow>
     s = \<lparr> session_id = new_id, device_id = dev, provider = prov, task = tsk,
           created_at = now, updated_at = now, status = ''active'', step_count = 0,
           last_result = PDict [], history = [] \<rparr>
     \<and> sessions m' = AList.update new_id s (sessions m)
     \<and> storage m' = (storage m)(new_id \<mapsto> s)
     \<and> expire_seconds m' = expire_seconds m"
  by (auto simp: create_session_def save_session_def Let_def)

lemma update_session_missing:
  "map_of (sessions m) sid = None \<Longrightarrow> update_session m sid payload st now = (m, None)"
  by (simp add: update_session_def)

lemma update_session_found:
  assumes "map_of (sessions m) sid = Some s"
    and "s' = s\<lparr> updated_at := now, step_count := step_count s + 1, last_result := payload,
            history := history s @ [\<lparr> step = step_count s + 1, timestamp = now, result = payload \<rparr>],
            status := (if given st then the st else status s) \<rparr>"
  shows "update_session m sid payload st now =
           (m\<lparr> sessions := AList.update sid s' (sessions m),
               storage := (storage m)(session_id s \<mapsto> s') \<rparr>, Some s')"
  using assms by (simp add: update_session_def save_session_def Let_def)

text \<open>
  Claim C5. \<open>create\<close> returns a session with \<open>status = active\<close> and \<open>step_count = 0\<close>
  that is in the store and in durable storage. \<open>update\<close> returns not-found for an
  unknown identifier and leaves the store as it was; for a known one it increments
  \<open>step_count\<close> by one, sets \<open>updated_at\<close> to the clock, appends one
  \<open>{step, timestamp, result}\<close> entry to \<open>history\<close>, replaces \<open>last_result\<close>, stores
  and persists the session and returns it; without a status argument the status stays.
\<close>

theorem session_create_update:
  "(\<forall>m' s. create_session m dev prov tsk new_id now = (m', s) \<longrightarrow>
        status s = ''active'' \<and> step_count s = 0 \<and> session_id s = new_id \<and>
        map_of (sessions m') new_id = Some s \<and> storage m' new_id = Some s)
 \<and> (map_of (sessions m) sid = None \<longrightarrow> update_session m sid payload st now = (m, None))
 \<and> (\<forall>s. map_of (sessions m) sid = Some s \<longrightarrow>
        (\<exists>m' s'. update_session m sid payload st now = (m', Some s') \<and>
           step_count s' = step_count s + 1 \<and>
           updated_at s' = now \<and>
           history s' = history s @ [\<lparr> step = step_count s + 1, timestamp = now, result = payload \<rparr>] \<and>
           last_result s' = payload \<and>
           session_id s' = session_id s \<and>
           map_of (sessions m') sid = Some s' \<and>
           storage m' (session_id s') = Some s' \<and>
           (st = None \<longrightarrow> status s' = status s)))"
proof -
  have created: "status s = ''active'' \<and> step_count s = 0 \<and> session_id s = new_id \<and>
        map_of (sessions m') new_id = Some s \<and> storage m' new_id = Some s"
    if "create_session m dev prov tsk new_id now = (m', s)" for m' s
    using create_session_eq [OF that] by (simp add: update_conv')
  have missing: "update_session m sid payload st now = (m, None)"
    if "map_of (sessions m) sid = None"
    using that by (rule update_session_missing)
  have found: "\<exists>m' s'. update_session m sid payload st now = (m', Some s') \<and>
           step_count s' = step_count s + 1 \<and>
           updated_at s' = now \<and>
           history s' = history s @ [\<lparr> step = step_count s + 1, timestamp = now, result = payload \<rparr>] \<and>
           last_result s' = payload \<and>
           session_id s' = session_id s \<and>
           map_of (sessions m') sid = Some s' \<and>
           storage m' (session_id s') = Some s' \<and>
           (st = None \<longrightarrow> status s' = status s)"
    if "map_of (sessions m) sid = Some s" for s
    unfolding update_session_found [OF that refl] by (simp add: update_conv')
  from created missing found show ?thesis by blast
qed

lemma demo_lookup:
  "map_of (sessions demo_manager) ''ab12cd34'' = Some demo_session"
  "map_of (sessions demo_manager) ''ffffffff'' = None"
  by (simp_all add: demo_manager_def)

lemma demo_session_fields:
  "step_count demo_session = 0" "history demo_session = []"
  "status demo_session = ''active''" "session_id demo_session = ''ab12cd34''"
  "updated_at demo_session = 100"
  by (simp_all add: demo_session_def)

theorem session_create_update_witness:
  "(\<exists>m' s. create_session demo_manager ''emulator-5554'' ''local'' ''open mail'' ''0f0f0f0f'' 200
              = (m', s) \<and>
        status s = ''active'' \<and> step_count s = 0 \<and> storage m' ''0f0f0f0f'' = Some s)
 \<and> map_of (sessions demo_manager) ''ffffffff'' = None
 \<and> update_session demo_manager ''ffffffff'' (PDict []) None 200 = (demo_manager, None)
 \<and> map_of (sessions demo_manager) ''ab12cd34'' = Some demo_session
 \<and> (\<exists>m' s'. update_session demo_manager ''ab12cd34'' (PDict [(''status'', PStr ''running'')])
               None 200 = (m', Some s') \<and>
        step_count s' = 1 \<and> updated_at s' = 200 \<and>
        history s' = [\<lparr> step = 1, timestamp = 200,
                        result = PDict [(''status'', PStr ''running'')] \<rparr>] \<and>
        storage m' ''ab12cd34'' = Some s' \<and>
        status s' = ''active'')"
proof -
  note a = session_create_update [of demo_manager "''emulator-5554''" "''local''" "''open mail''"
      "''0f0f0f0f''" 200 "''ffffffff''" "PDict []" None]
  note b = session_create_update [of demo_manager "''emulator-5554''" "''local''" "''open mail''"
      "''0f0f0f0f''" 200 "''ab12cd34''" "PDict [(''status'', PStr ''running'')]" None]
  obtain m' s where c: "create_session demo_manager ''emulator-5554'' ''local'' ''open mail''
        ''0f0f0f0f'' 200 = (m', s)"
    by (cases "create_session demo_manager ''emulator-5554'' ''local'' ''open mail''
        ''0f0f0f0f'' 200") blast
  from a c have "status s = ''active'' \<and> step_count s = 0 \<and> storage m' ''0f0f0f0f'' = Some s"
    by blast
  with c have first: "\<exists>m' s. create_session demo_manager ''emulator-5554'' ''local''
        ''open mail'' ''0f0f0f0f'' 200 = (m', s) \<and>
        status s = ''active'' \<and> step_count s = 0 \<and> storage m' ''0f0f0f0f'' = Some s"
    by blast
  from a demo_lookup(2)
  have second: "update_session demo_manager ''ffffffff'' (PDict []) None 200 = (demo_manager, None)"
    by blast
  from b demo_lookup(1) obtain m2 s2 where
    u: "update_session demo_manager ''ab12cd34'' (PDict [(''status'', PStr ''running'')]) None 200
          = (m2, Some s2)"
    and f: "step_count s2 = step_count demo_session + 1" "updated_at s2 = 200"
      "history s2 = history demo_session @
         [\<lparr> step = step_count demo_session + 1, timestamp = 200,
            result = PDict [(''status'', PStr ''running'')] \<rparr>]"
      "session_id s2 = session_id demo_session"
      "storage m2 (session_id s2) = Some s2"
      "status s2 = status demo_session"
    by blast
  from f have "step_count s2 = 1 \<and> updated_at s2 = 200 \<and>
        history s2 = [\<lparr> step = 1, timestamp = 200,
                        result = PDict [(''status'', PStr ''running'')] \<rparr>] \<and>
        storage m2 ''ab12cd34'' = Some s2 \<and>
        status s2 = ''active''"
    by (simp add: demo_session_fields)
  with u have third: "\<exists>m' s'. update_session demo_manager ''ab12cd34''
        (PDict [(''status'', PStr ''running'')]) None 200 = (m', Some s') \<and>
        step_count s' = 1 \<and> updated_at s' = 200 \<and>
        history s' = [\<lparr> step = 1, timestamp = 200,
                        result = PDict [(''status'', PStr ''running'')] \<rparr>] \<and>
        storage m' ''ab12cd34'' = Some s' \<and>
        status s' = ''active''"
    by blast
  from first second third demo_lookup show ?thesis by blast
qed

lemma get_session_missing:
  "map_of (sessions m) k = None \<Longrightarrow> get_session m k now = (m, None)"
  by (simp add: get_session_def)

lemma get_session_found:
  assumes "map_of (sessions m) k = Some s"
  shows "get_session m k now =
     (if stale m now s
      then (m\<lparr> sessions := AList.update k (s\<lparr>status := ''expired''\<rparr>) (sessions m),
               storage := (storage m)(session_id s \<mapsto> s\<lparr>status := ''expired''\<rparr>) \<rparr>,
            Some (s\<lparr>status := ''expired''\<rparr>))
      else (m, Some s))"
  using assms by (simp add: get_session_def save_session_def Let_def)

lemma loop_items:
  "fst (list_active_loop m now xs) = map (\<lambda>(k, s). (k, sweep m now s)) xs"
  by (induction xs) (auto simp: sweep_def split: prod.splits)

lemma loop_active:
  "snd (snd (list_active_loop m now xs))
     = filter (\<lambda>s. status s = ''active'' \<and> \<not> stale m now s) (map snd xs)"
  by (induction xs) (auto split: prod.splits)

lemma sessions_fold_save:
  "sessions (fold (\<lambda>s m'. save_session m' s) saved m) = sessions m"
  by (induction saved arbitrary: m) (simp_all add: save_session_def)

lemma list_active_sessions_eq:
  assumes "list_active_sessions m now = (m', active)"
  shows "sessions m' = map (\<lambda>(k, s). (k, sweep m now s)) (sessions m)"
    and "active = filter (\<lambda>s. status s = ''active'' \<and> \<not> stale m now s) (map snd (sessions m))"
proof -
  obtain items saved act where l: "list_active_loop m now (sessions m) = (items, saved, act)"
    by (cases "list_active_loop m now (sessions m)") auto
  from loop_items [of m now "sessions m"] l
  have i: "items = map (\<lambda>(k, s). (k, sweep m now s)) (sessions m)" by simp
  from loop_active [of m now "sessions m"] l
  have a: "act = filter (\<lambda>s. status s = ''active'' \<and> \<not> stale m now s) (map snd (sessions m))"
    by simp
  from assms l have "m' = fold (\<lambda>s m'. save_session m' s) saved (m\<lparr>sessions := items\<rparr>)"
    and "active = act"
    by (simp_all add: list_active_sessions_def)
  with i a show "sessions m' = map (\<lambda>(k, s). (k, sweep m now s)) (sessions m)"
    and "active = filter (\<lambda>s. status s = ''active'' \<and> \<not> stale m now s) (map snd (sessions m))"
    by (simp_all add: sessions_fold_save)
qed

lemma max_updated_in: "max_updated b ss \<in> set (b # ss)"
  by (induction ss arbitrary: b) auto

lemma get_latest_session_eq:
  assumes "get_latest_session m dev now = (m', found)"
  shows "sessions m' = map (\<lambda>(k, s). (k, sweep m now s)) (sessions m)"
    and "found = Some s0 \<Longrightarrow>
           s0 \<in> snd ` set (sessions m) \<and> status s0 = ''active'' \<and> \<not> stale m now s0"
proof -
  obtain m1 active where l: "list_active_sessions m now = (m1, active)"
    by (cases "list_active_sessions m now") auto
  note e = list_active_sessions_eq [OF l]
  define chosen where
    "chosen = (if given dev then filter (\<lambda>s. device_id s = the dev) active else active)"
  have sub: "set chosen \<subseteq> set active" by (auto simp: chosen_def)
  from assms l have r: "(m', found) =
      (case chosen of [] \<Rightarrow> (m1, None) | s # ss \<Rightarrow> (m1, Some (max_updated s ss)))"
    by (simp add: get_latest_session_def chosen_def Let_def)
  then have "m' = m1" by (cases chosen) simp_all
  with e(1) show "sessions m' = map (\<lambda>(k, s). (k, sweep m now s)) (sessions m)" by simp
  assume f: "found = Some s0"
  with r obtain b ss where c: "chosen = b # ss" and "s0 = max_updated b ss"
    by (cases chosen) simp_all
  with max_updated_in [of b ss] have "s0 \<in> set chosen" by simp
  with sub have "s0 \<in> set active" by blast
  with e(2) show "s0 \<in> snd ` set (sessions m) \<and> status s0 = ''active'' \<and> \<not> stale m now s0"
    by auto
qed

lemma map_of_swept:
  "map_of (map (\<lambda>(k, s). (k, sweep m now s)) xs) k = map_option (sweep m now) (map_of xs k)"
  by (induction xs) auto

lemma update_session_other:
  assumes "k \<noteq> k0"
  shows "map_of (sessions (fst (update_session m k0 payload st now))) k = map_of (sessions m) k"
proof (cases "map_of (sessions m) k0")
  case None
  then show ?thesis by (simp add: update_session_missing)
next
  case (Some s)
  from assms show ?thesis
    by (simp add: update_session_found [OF Some refl] update_conv')
qed

lemma update_session_same:
  assumes "map_of (sessions m) k0 = Some s" and "st \<noteq> []"
  shows "\<exists>s'. map_of (sessions (fst (update_session m k0 payload (Some st) now))) k0 = Some s'
            \<and> status s' = st \<and> session_id s' = session_id s"
  using assms(2) by (simp add: update_session_found [OF assms(1) refl] update_conv')

lemma wf_lookup:
  assumes "wf_store m" and "(k, s) \<in> set (sessions m)"
  shows "session_id s = k" and "map_of (sessions m) k = Some s"
  using assms by (auto simp: wf_store_def list_all_iff)

lemma wf_map_of:
  assumes "wf_store m" and "map_of (sessions m) k = Some s"
  shows "session_id s = k"
  using assms wf_lookup(1) map_of_SomeD by fastforce

lemma sweep_cases: "sweep m now s = s \<or> sweep m now s = s\<lparr>status := ''expired''\<rparr>"
  by (simp add: sweep_def)

lemma sweep_fresh: "status s = ''active'' \<Longrightarrow> \<not> stale m now s \<Longrightarrow> sweep m now s = s"
  by (simp add: sweep_def)

text \<open>
  The lookup that opens \<^verbatim>\<open>continue_session\<close>, by the latest active session or by
  identifier: every stored session is still stored, unchanged or marked expired, and a
  session that is found is the one stored under its own identifier.
\<close>

lemma lookup_keeps:
  assumes "(case sid of None \<Rightarrow> get_latest_session m dev now
                      | Some k0 \<Rightarrow> get_session m k0 now) = (m1, found)"
    and "map_of (sessions m) k = Some s"
  shows "\<exists>s1. map_of (sessions m1) k = Some s1 \<and> (s1 = s \<or> s1 = s\<lparr>status := ''expired''\<rparr>)"
proof (cases sid)
  case None
  with assms(1) have "get_latest_session m dev now = (m1, found)" by simp
  from get_latest_session_eq(1) [OF this] assms(2)
  have "map_of (sessions m1) k = Some (sweep m now s)" by (simp add: map_of_swept)
  with sweep_cases [of m now s] show ?thesis by auto
next
  case (Some k0)
  with assms(1) have g: "get_session m k0 now = (m1, found)" by simp
  show ?thesis
  proof (cases "map_of (sessions m) k0")
    case None
    with g assms(2) show ?thesis by (simp add: get_session_missing)
  next
    case s0: (Some s0)
    show ?thesis
    proof (cases "k = k0")
      case True
      with s0 assms(2) have "s0 = s" by simp
      show ?thesis
      proof (cases "stale m now s")
        case st: True
        with g [symmetric] \<open>s0 = s\<close> have "m1 = m\<lparr> sessions := AList.update k0 (s\<lparr>status := ''expired''\<rparr>) (sessions m),
               storage := (storage m)(session_id s \<mapsto> s\<lparr>status := ''expired''\<rparr>) \<rparr>"
          by (simp add: get_session_found [OF s0])
        with True show ?thesis by (simp add: update_conv')
      next
        case st: False
        with g [symmetric] \<open>s0 = s\<close> have "m1 = m" by (simp add: get_session_found [OF s0])
        with assms(2) show ?thesis by simp
      qed
    next
      case False
      from g [symmetric] have "sessions m1 = sessions m \<or>
          sessions m1 = AList.update k0 (s0\<lparr>status := ''expired''\<rparr>) (sessions m)"
        by (auto simp: get_session_found [OF s0] split: if_splits)
      with False assms(2) show ?thesis by (auto simp: update_conv')
    qed
  qed
qed

lemma lookup_found:
  assumes "wf_store m"
    and "(case sid of None \<Rightarrow> get_latest_session m dev now
                      | Some k0 \<Rightarrow> get_session m k0 now) = (m1, found)"
    and "found = Some s0"
  shows "map_of (sessions m1) (session_id s0) = Some s0"
proof (cases sid)
  case None
  with assms(2) have l: "get_latest_session m dev now = (m1, found)" by simp
  from get_latest_session_eq(2) [OF l assms(3)]
  obtain k where k: "(k, s0) \<in> set (sessions m)"
    and a: "status s0 = ''active''" "\<not> stale m now s0"
    by auto
  from wf_lookup [OF assms(1) k] have "session_id s0 = k" "map_of (sessions m) k = Some s0"
    by simp_all
  with get_latest_session_eq(1) [OF l] sweep_fresh [OF a] show ?thesis
    by (simp add: map_of_swept)
next
  case (Some k0)
  with assms(2) have g: "get_session m k0 now = (m1, found)" by simp
  show ?thesis
  proof (cases "map_of (sessions m) k0")
    case None
    with g assms(3) show ?thesis by (simp add: get_session_missing)
  next
    case s: (Some s)
    from wf_map_of [OF assms(1) s] have id: "session_id s = k0" .
    show ?thesis
    proof (cases "stale m now s")
      case True
      with g [symmetric] assms(3) have "s0 = s\<lparr>status := ''expired''\<rparr>"
        and "sessions m1 = AList.update k0 (s\<lparr>status := ''expired''\<rparr>) (sessions m)"
        by (simp_all add: get_session_found [OF s])
      with id show ?thesis by (simp add: update_conv')
    next
      case False
      with g [symmetric] assms(3) have "s0 = s" "m1 = m" by (simp_all add: get_session_found [OF s])
      with id s show ?thesis by simp
    qed
  qed
qed

lemma lookup_explicit_status:
  assumes "get_session m k0 now = (m1, found)" and "map_of (sessions m) k0 = Some s"
  shows "\<exists>s1. found = Some s1 \<and> status s1 = (if stale m now s then ''expired'' else status s)
            \<and> map_of (sessions m1) k0 = Some s1
            \<and> step_count s1 = step_count s \<and> history s1 = history s"
proof (cases "stale m now s")
  case True
  with assms(1) [symmetric] have "found = Some (s\<lparr>status := ''expired''\<rparr>)"
    and "sessions m1 = AList.update k0 (s\<lparr>status := ''expired''\<rparr>) (sessions m)"
    by (simp_all add: get_session_found [OF assms(2)])
  with True show ?thesis by (simp add: update_conv')
next
  case False
  with assms(1) [symmetric] have "found = Some s" "m1 = m" by (simp_all add: get_session_found [OF assms(2)])
  with False assms(2) show ?thesis by simp
qed

text \<open>The store invariant is kept by creation, update and lookup.\<close>

lemma list_all_update:
  "list_all P al \<Longrightarrow> P (k, v) \<Longrightarrow> list_all P (AList.update k v al)"
  by (induction al) auto

lemma wf_create_session:
  assumes "wf_store m" and "create_session m dev prov tsk new_id now = (m', s)"
  shows "wf_store m'"
proof -
  from create_session_eq [OF assms(2)] have "session_id s = new_id"
    and "sessions m' = AList.update new_id s (sessions m)"
    by simp_all
  with assms(1) show ?thesis by (simp add: wf_store_def distinct_update list_all_update)
qed

lemma wf_update_session:
  assumes "wf_store m"
  shows "wf_store (fst (update_session m k payload st now))"
proof (cases "map_of (sessions m) k")
  case None
  with assms show ?thesis by (simp add: update_session_missing)
next
  case (Some s)
  from wf_map_of [OF assms Some] have "session_id s = k" .
  with assms show ?thesis
    by (simp add: update_session_found [OF Some refl] wf_store_def distinct_update
          list_all_update)
qed

lemma wf_get_session:
  assumes "wf_store m"
  shows "wf_store (fst (get_session m k now))"
proof (cases "map_of (sessions m) k")
  case None
  with assms show ?thesis by (simp add: get_session_missing)
next
  case (Some s)
  from wf_map_of [OF assms Some] have "session_id s = k" .
  with assms show ?thesis
    by (simp add: get_session_found [OF Some] wf_store_def distinct_update list_all_update)
qed

section \<open>Properties of the continue path\<close>

lemma process_result_manager:
  "fst (process_result m k payload True now cap) =
     fst (update_session m k payload
            (Some (if determine_next_action payload = ''complete'' then ''completed''
                   else ''active'')) now)"
  by (simp add: process_result_def Let_def split: prod.splits)

lemma continue_tap_only:
  "tap_only_mode (config ex) \<Longrightarrow>
     continue_session ex w sid dev ms tmo = Some (tap_only_error_result ''continue'', ex)"
  by (simp add: continue_session_def)

lemma continue_not_found:
  assumes "\<not> tap_only_mode (config ex)"
    and "(case sid of None \<Rightarrow> get_latest_session (session_manager ex) dev (time_before w)
                    | Some k \<Rightarrow> get_session (session_manager ex) k (time_before w)) = (m1, None)"
  shows "\<exists>r. continue_session ex w sid dev ms tmo = Some (r, ex\<lparr>session_manager := m1\<rparr>)
             \<and> \<not> success r"
  using assms by (simp add: continue_session_def error_result_def split: option.splits)

lemma continue_inactive:
  assumes "\<not> tap_only_mode (config ex)"
    and "(case sid of None \<Rightarrow> get_latest_session (session_manager ex) dev (time_before w)
                    | Some k \<Rightarrow> get_session (session_manager ex) k (time_before w)) = (m1, Some s)"
    and "status s \<noteq> ''active''"
  shows "continue_session ex w sid dev ms tmo =
           Some (error_result (''Session is '' @ status s)
                   (''Cannot continue session: status is '' @ status s @ ''.''),
                 ex\<lparr>session_manager := m1\<rparr>)"
  using assms by (simp add: continue_session_def)

lemma continue_active:
  assumes "\<not> tap_only_mode (config ex)"
    and "(case sid of None \<Rightarrow> get_latest_session (session_manager ex) dev (time_before w)
                    | Some k \<Rightarrow> get_session (session_manager ex) k (time_before w)) = (m1, Some s)"
    and "status s = ''active''"
    and "continue_session ex w sid dev ms tmo = Some (r, ex')"
  shows "session_manager ex' = m1 \<or>
         (\<exists>payload. session_manager ex' =
            fst (update_session m1 (session_id s) payload
                   (Some (if determine_next_action payload = ''complete'' then ''completed''
                          else ''active'')) (time_after w)))"
proof -
  define steps where "steps = or_default ms (default_max_steps (config ex))"
  define tmo' where
    "tmo' = timeout_or_default tmo (default_operation_timeout_sec (config ex))"
  define run where
    "run = (case ensure_device_connected (listed_devices w) (device_id s) of
              Inl e \<Rightarrow> Some (Inl e, tracked ex)
            | Inr u \<Rightarrow> invoke_adapter w tmo' ''continue'' (tracked ex))"
  have c: "continue_session ex w sid dev ms tmo =
      (if steps \<le> 0
       then Some ((error_result ''Invalid max_steps: must be > 0''
                     ''Invalid max_steps: must be > 0'')
                    \<lparr>result_session_id := Some (session_id s)\<rparr>,
                  ex\<lparr>session_manager := m1\<rparr>)
       else (case run of
               None \<Rightarrow> None
             | Some (Inl e, reg) \<Rightarrow>
                 Some (failure_result ''Continue task failed: '' (session_id s) e tmo',
                       ex\<lparr>session_manager := m1, tracked := reg\<rparr>)
             | Some (Inr payload, reg) \<Rightarrow>
                 (case process_result m1 (session_id s) payload True
                         (time_after w) (caption w) of
                    (m2, r) \<Rightarrow>
                      Some (r, ex\<lparr>session_manager := m2, tracked := reg\<rparr>))))"
    using assms(1,2,3) unfolding continue_session_def steps_def tmo'_def run_def Let_def
    by simp
  show ?thesis
  proof (cases "steps \<le> 0")
    case True
    with c assms(4) show ?thesis by auto
  next
    case False
    show ?thesis
    proof (cases run)
      case None
      with c False assms(4) show ?thesis by simp
    next
      case (Some p)
      obtain out reg where p: "p = (out, reg)" by (cases p)
      show ?thesis
      proof (cases out)
        case (Inl e)
        with c False Some p assms(4) show ?thesis by auto
      next
        case (Inr payload)
        obtain m2 r2 where pr: "process_result m1 (session_id s) payload True
                         (time_after w) (caption w) = (m2, r2)"
          by (cases "process_result m1 (session_id s) payload True
                         (time_after w) (caption w)")
        with c False Some p Inr assms(4) have "session_manager ex' = m2" by auto
        moreover from pr process_result_manager [of m1 "session_id s" payload "time_after w" "caption w"]
        have "m2 = fst (update_session m1 (session_id s) payload
                   (Some (if determine_next_action payload = ''complete'' then ''completed''
                          else ''active'')) (time_after w))"
          by simp
        ultimately show ?thesis by blast
      qed
    qed
  qed
qed

lemma continue_preserves:
  assumes wf: "wf_store (session_manager ex)"
    and c: "continue_session ex w sid dev ms tmo = Some (r, ex')"
    and st: "map_of (sessions (session_manager ex)) k = Some s"
  shows "\<exists>s'. map_of (sessions (session_manager ex')) k = Some s' \<and>
           session_id s' = session_id s \<and>
           (status s' = status s \<or> status s' = ''expired'' \<or>
            (status s = ''active'' \<and> status s' = ''completed'')) \<and>
           (status s \<noteq> ''active'' \<longrightarrow>
              step_count s' = step_count s \<and> history s' = history s \<and>
              last_result s' = last_result s \<and> updated_at s' = updated_at s)"
    (is "\<exists>s'. ?Q ex' s'")
proof (cases "tap_only_mode (config ex)")
  case True
  with c have "ex' = ex" by (simp add: continue_tap_only)
  with st show ?thesis by simp
next
  case False
  obtain m1 found where l:
    "(case sid of None \<Rightarrow> get_latest_session (session_manager ex) dev (time_before w)
                | Some k \<Rightarrow> get_session (session_manager ex) k (time_before w)) = (m1, found)"
    by (cases "(case sid of None \<Rightarrow> get_latest_session (session_manager ex) dev (time_before w)
                | Some k \<Rightarrow> get_session (session_manager ex) k (time_before w))")
  from lookup_keeps [OF l st] obtain s1 where
    s1: "map_of (sessions m1) k = Some s1"
    and s1': "s1 = s \<or> s1 = s\<lparr>status := ''expired''\<rparr>"
    by blast
  have kept: "?Q ex'' s1" if "session_manager ex'' = m1" for ex''
    using that s1 s1' by auto
  show ?thesis
  proof (cases found)
    case None
    from continue_not_found [OF False l [unfolded None], of ms tmo] c
    have "session_manager ex' = m1" by auto
    from kept [OF this] show ?thesis ..
  next
    case (Some s0)
    show ?thesis
    proof (cases "status s0 = ''active''")
      case inactive: False
      from continue_inactive [OF False l [unfolded Some] inactive, of ms tmo] c
      have "session_manager ex' = m1" by auto
      from kept [OF this] show ?thesis ..
    next
      case active: True
      from continue_active [OF False l [unfolded Some] active c]
      consider "session_manager ex' = m1"
        | payload where "session_manager ex' =
            fst (update_session m1 (session_id s0) payload
                   (Some (if determine_next_action payload = ''complete'' then ''completed''
                          else ''active'')) (time_after w))"
        by blast
      then show ?thesis
      proof cases
        case 1
        from kept [OF this] show ?thesis ..
      next
        case 2
        from lookup_found [OF wf l Some]
        have f: "map_of (sessions m1) (session_id s0) = Some s0" .
        show ?thesis
        proof (cases "k = session_id s0")
          case same: True
          with f s1 have "s1 = s0" by simp
          with active s1' have s: "s0 = s" "status s = ''active''" by auto
          define new where "new = (if determine_next_action payload = ''complete''
                                   then ''completed'' else ''active'')"
          have "new \<noteq> []" by (simp add: new_def)
          from update_session_same [OF f this, of payload "time_after w"]
          obtain s' where "map_of (sessions (fst (update_session m1 (session_id s0) payload
              (Some new) (time_after w)))) (session_id s0) = Some s'"
            and "status s' = new" "session_id s' = session_id s0"
            by blast
          with 2 same s have "?Q ex' s'" by (auto simp: new_def)
          then show ?thesis ..
        next
          case other: False
          from update_session_other [OF other] 2 s1
          have "map_of (sessions (session_manager ex')) k = Some s1" by simp
          with s1' have "?Q ex' s1" by auto
          then show ?thesis ..
        qed
      qed
    qed
  qed
qed

lemma continue_rejects:
  assumes "\<not> tap_only_mode (config ex)"
    and "map_of (sessions (session_manager ex)) k = Some s"
    and "status s \<noteq> ''active''"
  shows "\<exists>r ex'. continue_session ex w (Some k) dev ms tmo = Some (r, ex') \<and> \<not> success r \<and>
           error r = Some (''Session is '' @
                       (if stale (session_manager ex) (time_before w) s then ''expired''
                        else status s)) \<and>
           result_step_count r = None"
proof -
  obtain m1 found where g: "get_session (session_manager ex) k (time_before w) = (m1, found)"
    by (cases "get_session (session_manager ex) k (time_before w)")
  from lookup_explicit_status [OF g assms(2)] obtain s1 where
    f: "found = Some s1"
    and s1: "status s1 = (if stale (session_manager ex) (time_before w) s then ''expired''
                          else status s)"
    by blast
  from s1 assms(3) have na: "status s1 \<noteq> ''active''" by simp
  from g f have l: "(case Some k of
        None \<Rightarrow> get_latest_session (session_manager ex) dev (time_before w)
      | Some k \<Rightarrow> get_session (session_manager ex) k (time_before w)) = (m1, Some s1)"
    by simp
  from continue_inactive [OF assms(1) l na, of ms tmo] s1
  show ?thesis by (simp add: error_result_def)
qed

text \<open>
  Claim C6 as stated fails: a completed session that has outlived the expiry time is
  turned to \<open>expired\<close> by the lookup of an explicit continue request, a transition
  \<open>completed \<rightarrow> expired\<close>.
\<close>

theorem status_transitions_counterexample:
  "map_option status (map_of (sessions (session_manager demo_executor)) ''c0ffee00'')
     = Some ''completed''
 \<and> (\<exists>r ex'. continue_session demo_executor (demo_world 5000 Hangs) (Some ''c0ffee00'')
               None None None = Some (r, ex') \<and>
        map_option status (map_of (sessions (session_manager ex')) ''c0ffee00'')
          = Some ''expired'')"
  by (simp add: demo_executor_def demo_world_def done_session_def demo_session_def
        continue_session_def get_session_def stale_def save_session_def Let_def)

text \<open>
  Claim C6, amended. For every session in a store that files each session under its own
  identifier: creation sets the status to \<open>active\<close>; a lookup by identifier turns a
  stale session to \<open>expired\<close> whatever its status and leaves a fresh one as it is; a
  continue call, with or without an identifier, leaves each stored session with its
  status unchanged, or expired, or completed when it was active, and never advances a
  session that is not active (its step count, history, last result and update time
  stay); and an explicit continue request naming a session that is not active returns a
  structured rejection telling the status.
\<close>

theorem status_transitions:
  assumes "wf_store (session_manager ex)"
    and "map_of (sessions (session_manager ex)) k = Some s"
  shows
    "(\<forall>m' n. create_session (session_manager ex) dv pv tk new_id now = (m', n)
         \<longrightarrow> status n = ''active'')
   \<and> (\<exists>m' s'. get_session (session_manager ex) k now = (m', Some s') \<and>
         map_of (sessions m') k = Some s' \<and>
         status s' = (if stale (session_manager ex) now s then ''expired'' else status s))
   \<and> (\<forall>r ex'. continue_session ex w sid dev ms tmo = Some (r, ex') \<longrightarrow>
         (\<exists>s'. map_of (sessions (session_manager ex')) k = Some s' \<and>
            session_id s' = session_id s \<and>
            (status s' = status s \<or> status s' = ''expired'' \<or>
             (status s = ''active'' \<and> status s' = ''completed'')) \<and>
            (status s \<noteq> ''active'' \<longrightarrow>
               step_count s' = step_count s \<and> history s' = history s \<and>
               last_result s' = last_result s \<and> updated_at s' = updated_at s)))
   \<and> (\<not> tap_only_mode (config ex) \<and> status s \<noteq> ''active'' \<longrightarrow>
         (\<exists>r ex'. continue_session ex w (Some k) dev ms tmo = Some (r, ex') \<and>
            \<not> success r \<and>
            error r = Some (''Session is '' @
                        (if stale (session_manager ex) (time_before w) s then ''expired''
                         else status s)) \<and>
            result_step_count r = None))"
proof -
  have created: "status n = ''active''"
    if "create_session (session_manager ex) dv pv tk new_id now = (m', n)" for m' n
    using create_session_eq [OF that] by simp
  obtain m1 found where g: "get_session (session_manager ex) k now = (m1, found)"
    by (cases "get_session (session_manager ex) k now")
  from lookup_explicit_status [OF g assms(2)] g
  have got: "\<exists>m' s'. get_session (session_manager ex) k now = (m', Some s') \<and>
         map_of (sessions m') k = Some s' \<and>
         status s' = (if stale (session_manager ex) now s then ''expired'' else status s)"
    by auto
  have continued: "\<exists>s'. map_of (sessions (session_manager ex')) k = Some s' \<and>
            session_id s' = session_id s \<and>
            (status s' = status s \<or> status s' = ''expired'' \<or>
             (status s = ''active'' \<and> status s' = ''completed'')) \<and>
            (status s \<noteq> ''active'' \<longrightarrow>
               step_count s' = step_count s \<and> history s' = history s \<and>
               last_result s' = last_result s \<and> updated_at s' = updated_at s)"
    if "continue_session ex w sid dev ms tmo = Some (r, ex')" for r ex'
    using assms(1) that assms(2) by (rule continue_preserves)
  have rejected: "\<exists>r ex'. continue_session ex w (Some k) dev ms tmo = Some (r, ex') \<and>
            \<not> success r \<and>
            error r = Some (''Session is '' @
                        (if stale (session_manager ex) (time_before w) s then ''expired''
                         else status s)) \<and>
            result_step_count r = None"
    if "\<not> tap_only_mode (config ex)" "status s \<noteq> ''active''"
    using that(1) assms(2) that(2) by (rule continue_rejects)
  from created got continued rejected show ?thesis by blast
qed

lemma demo_executor_wf: "wf_store (session_manager demo_executor)"
  by (simp add: wf_store_def demo_executor_def demo_session_def done_session_def)

lemma demo_executor_done:
  "map_of (sessions (session_manager demo_executor)) ''c0ffee00'' = Some done_session"
  by (simp add: demo_executor_def)

lemma done_session_fields:
  "status done_session = ''completed''" "step_count done_session = 1"
  "session_id done_session = ''c0ffee00''" "updated_at done_session = 100"
  by (simp_all add: done_session_def)

lemma demo_executor_fresh:
  "\<not> stale (session_manager demo_executor) 200 done_session"
  "stale (session_manager demo_executor) 5000 done_session"
  "\<not> tap_only_mode (config demo_executor)"
  by (simp_all add: stale_def demo_executor_def done_session_def)

lemma demo_world_clock: "time_before (demo_world t call) = t"
  by (simp add: demo_world_def)

theorem status_transitions_witness:
  "wf_store (session_manager demo_executor)
 \<and> map_of (sessions (session_manager demo_executor)) ''c0ffee00'' = Some done_session
 \<and> status (snd (create_session (session_manager demo_executor) ''emulator-5554'' ''local''
                 ''open mail'' ''0f0f0f0f'' 5000)) = ''active''
 \<and> (\<exists>m' s'. get_session (session_manager demo_executor) ''c0ffee00'' 5000 = (m', Some s') \<and>
        status s' = ''expired'')
 \<and> (\<exists>r ex'. continue_session demo_executor
               (demo_world 200 (Completes 5 (Inr (PDict [(''status'', PStr ''done'')]))))
               (Some ''c0ffee00'') None None None = Some (r, ex') \<and>
        \<not> success r \<and> error r = Some ''Session is completed'' \<and>
        (\<exists>s'. map_of (sessions (session_manager ex')) ''c0ffee00'' = Some s' \<and>
              step_count s' = 1 \<and> status s' \<noteq> ''active''))"
proof -
  let ?w = "demo_world 200 (Completes 5 (Inr (PDict [(''status'', PStr ''done'')])))"
  note t = status_transitions [OF demo_executor_wf demo_executor_done,
      of "''emulator-5554''" "''local''" "''open mail''" "''0f0f0f0f''" 5000 ?w "Some ''c0ffee00''"
         None None None]
  from t demo_executor_fresh(2)
  have a: "\<exists>m' s'. get_session (session_manager demo_executor) ''c0ffee00'' 5000 = (m', Some s') \<and>
        status s' = ''expired''"
    by auto
  from t demo_executor_fresh(1,3) done_session_fields(1) obtain r ex' where
    c: "continue_session demo_executor ?w (Some ''c0ffee00'') None None None = Some (r, ex')"
    and r: "\<not> success r" "error r = Some ''Session is completed''"
    by (auto simp: demo_world_clock)
  from t c obtain s' where
    "map_of (sessions (session_manager ex')) ''c0ffee00'' = Some s'"
    "status s' = status done_session \<or> status s' = ''expired''
       \<or> (status done_session = ''active'' \<and> status s' = ''completed'')"
    "status done_session \<noteq> ''active'' \<longrightarrow> step_count s' = step_count done_session"
    by blast
  then have "\<exists>s'. map_of (sessions (session_manager ex')) ''c0ffee00'' = Some s' \<and>
              step_count s' = 1 \<and> status s' \<noteq> ''active''"
    by (auto simp: done_session_fields)
  with c r have b: "\<exists>r ex'. continue_session demo_executor ?w
               (Some ''c0ffee00'') None None None = Some (r, ex') \<and>
        \<not> success r \<and> error r = Some ''Session is completed'' \<and>
        (\<exists>s'. map_of (sessions (session_manager ex')) ''c0ffee00'' = Some s' \<and>
              step_count s' = 1 \<and> status s' \<noteq> ''active'')"
    by blast
  from t [THEN conjunct1, rule_format, OF prod.collapse [symmetric]]
  have c: "status (snd (create_session (session_manager demo_executor) ''emulator-5554''
                 ''local'' ''open mail'' ''0f0f0f0f'' 5000)) = ''active''" .
  from demo_executor_wf demo_executor_done a b c show ?thesis by blast
qed




section \<open>Properties of task execution\<close>










end
